theory Spec2Isabelle
  imports Main
begin

section \<open>Python values used by the kernels\<close>

text \<open>
  Exceptions are values. Only the classes that the modelled code can raise or
  catch are listed; \<open>OtherError\<close> stands for what an external collaborator
  (the tool process, the JSON decoder) may raise besides them.
\<close>

datatype py_error =
    ValueError
  | IndexError
  | KeyError
  | AssertionError
  | OverflowError
  | FileNotFoundError
  | TimeoutExpired
  | OtherError

text \<open>Sequencing of fallible steps: the first exception wins.\<close>

definition raise_or :: "py_error + 'a \<Rightarrow> ('a \<Rightarrow> py_error + 'b) \<Rightarrow> py_error + 'b" where
  "raise_or m f = (case m of Inl e \<Rightarrow> Inl e | Inr x \<Rightarrow> f x)"

text \<open>\<open>xs[i]\<close> for a literal index \<open>i \<ge> 0\<close>.\<close>

definition index :: "'a list \<Rightarrow> nat \<Rightarrow> py_error + 'a" where
  "index xs i = (if i < length xs then Inr (xs ! i) else Inl IndexError)"

subsection \<open>Strings\<close>

text \<open>
  Strings are ASCII byte strings. \<open>str.split()\<close> separates on runs of
  whitespace (for ASCII text: TAB, LF, VT, FF, CR, FS, GS, RS, US and space) and
  returns no empty token; \<open>str.split(sep)\<close> cuts at every separator and keeps
  empty tokens.
\<close>

definition isspace :: "char \<Rightarrow> bool" where
  "isspace c = (of_char c \<in> set [9, 10, 11, 12, 13, 28, 29, 30, 31, 32 :: nat])"

fun split_ws_aux :: "string \<Rightarrow> string \<Rightarrow> string list" where
  "split_ws_aux cur [] = (if cur = [] then [] else [cur])"
| "split_ws_aux cur (c # cs) =
     (if isspace c
      then (if cur = [] then split_ws_aux [] cs else cur # split_ws_aux [] cs)
      else split_ws_aux (cur @ [c]) cs)"

definition split_ws :: "string \<Rightarrow> string list" where
  "split_ws s = split_ws_aux [] s"

fun split_aux :: "char \<Rightarrow> string \<Rightarrow> string \<Rightarrow> string list" where
  "split_aux sep cur [] = [cur]"
| "split_aux sep cur (c # cs) =
     (if c = sep then cur # split_aux sep [] cs else split_aux sep (cur @ [c]) cs)"

definition split :: "string \<Rightarrow> char \<Rightarrow> string list" where
  "split s sep = split_aux sep [] s"

text \<open>\<open>sub in s\<close> for strings.\<close>

fun startswith :: "string \<Rightarrow> string \<Rightarrow> bool" where
  "startswith s [] = True"
| "startswith [] (p # ps) = False"
| "startswith (c # cs) (p # ps) = (c = p \<and> startswith cs ps)"

fun contains :: "string \<Rightarrow> string \<Rightarrow> bool" where
  "contains [] sub = (sub = [])"
| "contains (c # cs) sub = (startswith (c # cs) sub \<or> contains cs sub)"

text \<open>\<open>str.upper()\<close> on ASCII text.\<close>

definition upper_char :: "char \<Rightarrow> char" where
  "upper_char c =
     (case map_of (zip ''abcdefghijklmnopqrstuvwxyz'' ''ABCDEFGHIJKLMNOPQRSTUVWXYZ'') c of
        None \<Rightarrow> c
      | Some u \<Rightarrow> u)"

definition upper :: "string \<Rightarrow> string" where
  "upper s = map upper_char s"

subsection \<open>\<open>int(x)\<close> on a string\<close>

text \<open>
  \<open>int\<close> strips C whitespace (TAB, LF, VT, FF, CR, space), accepts one sign and
  then decimal digits, single underscores allowed between digits. Every other
  text is a \<open>ValueError\<close>, as is one with more than 4300 digits (the default
  limit of the interpreter).
\<close>

definition c_isspace :: "char \<Rightarrow> bool" where
  "c_isspace c = (of_char c \<in> set [9, 10, 11, 12, 13, 32 :: nat])"

definition strip :: "string \<Rightarrow> string" where
  "strip s = rev (dropWhile c_isspace (rev (dropWhile c_isspace s)))"

definition is_digit :: "char \<Rightarrow> bool" where
  "is_digit c = (48 \<le> (of_char c :: nat) \<and> (of_char c :: nat) \<le> 57)"

definition digit_val :: "char \<Rightarrow> int" where
  "digit_val c = int (of_char c) - 48"

fun scan_digits :: "bool \<Rightarrow> int \<Rightarrow> string \<Rightarrow> int option" where
  "scan_digits need acc [] = (if need then None else Some acc)"
| "scan_digits need acc (c # cs) =
     (if is_digit c then scan_digits False (10 * acc + digit_val c) cs
      else if c = CHR ''_'' \<and> \<not> need then scan_digits True acc cs
      else None)"

definition int_max_str_digits :: nat where
  "int_max_str_digits = 4300"

definition unsign :: "string \<Rightarrow> bool \<times> string" where
  "unsign t =
     (case t of
        [] \<Rightarrow> (False, [])
      | c # cs \<Rightarrow>
          if c = CHR ''-'' then (True, cs)
          else if c = CHR ''+'' then (False, cs)
          else (False, t))"

definition py_int :: "string \<Rightarrow> py_error + int" where
  "py_int s =
     (let (neg, body) = unsign (strip s) in
      case scan_digits True 0 body of
        None \<Rightarrow> Inl ValueError
      | Some n \<Rightarrow>
          if int_max_str_digits < length (filter is_digit body) then Inl ValueError
          else Inr (if neg then - n else n))"

text \<open>\<open>[int(x) for x in xs]\<close>: the first failing element raises.\<close>

fun int_all :: "string list \<Rightarrow> py_error + int list" where
  "int_all [] = Inr []"
| "int_all (x # xs) =
     raise_or (py_int x) (\<lambda>n. raise_or (int_all xs) (\<lambda>ns. Inr (n # ns)))"

subsection \<open>\<open>datetime.datetime\<close>\<close>

text \<open>
  A date/time value; \<open>tzinfo\<close> is the UTC offset in minutes of a fixed-offset
  \<open>datetime.timezone\<close>, or \<open>None\<close> for a naive value.
\<close>

record datetime =
  year :: int
  month :: int
  day :: int
  hour :: int
  minute :: int
  second :: int
  microsecond :: int
  tzinfo :: "int option"

definition is_leap :: "int \<Rightarrow> bool" where
  "is_leap y = (y mod 4 = 0 \<and> (y mod 100 \<noteq> 0 \<or> y mod 400 = 0))"

definition days_in_month :: "int \<Rightarrow> int \<Rightarrow> int" where
  "days_in_month y m =
     (if m = 2 then (if is_leap y then 29 else 28)
      else if m = 4 \<or> m = 6 \<or> m = 9 \<or> m = 11 then 30 else 31)"

definition valid_fields :: "int \<Rightarrow> int \<Rightarrow> int \<Rightarrow> int \<Rightarrow> int \<Rightarrow> int \<Rightarrow> bool" where
  "valid_fields y mo d h mi s =
     (1 \<le> y \<and> y \<le> 9999 \<and> 1 \<le> mo \<and> mo \<le> 12 \<and> 1 \<le> d \<and> d \<le> days_in_month y mo
      \<and> 0 \<le> h \<and> h \<le> 23 \<and> 0 \<le> mi \<and> mi \<le> 59 \<and> 0 \<le> s \<and> s \<le> 59)"

text \<open>
  The constructor converts every argument to a C \<open>int\<close> first
  (\<open>OverflowError\<close> outside 32 bits) and then checks the calendar ranges
  (\<open>ValueError\<close>).
\<close>

definition c_int :: "int \<Rightarrow> bool" where
  "c_int n = (- 2147483648 \<le> n \<and> n \<le> 2147483647)"

definition datetime_new ::
  "int \<Rightarrow> int \<Rightarrow> int \<Rightarrow> int \<Rightarrow> int \<Rightarrow> int \<Rightarrow> int option \<Rightarrow> py_error + datetime" where
  "datetime_new y mo d h mi s tz =
     (if \<not> (c_int y \<and> c_int mo \<and> c_int d \<and> c_int h \<and> c_int mi \<and> c_int s)
      then Inl OverflowError
      else if \<not> valid_fields y mo d h mi s then Inl ValueError
      else Inr \<lparr>year = y, month = mo, day = d, hour = h, minute = mi, second = s,
                microsecond = 0, tzinfo = tz\<rparr>)"

definition valid_datetime :: "datetime \<Rightarrow> bool" where
  "valid_datetime d =
     (valid_fields (year d) (month d) (day d) (hour d) (minute d) (second d)
      \<and> 0 \<le> microsecond d \<and> microsecond d \<le> 999999)"

section \<open>KernelPrivateTools: the date codecs\<close>

text \<open>
  \<open>_metadates\<close>: the body of the \<open>try\<close> block, then the handler, which catches
  \<open>ValueError\<close> only and returns \<open>datetime.datetime(1, 1, 1)\<close>.
\<close>

definition metadates_try :: "string list \<Rightarrow> py_error + datetime" where
  "metadates_try values =
     raise_or (index values 0) (\<lambda>v0.
     raise_or (int_all (split v0 CHR '':'')) (\<lambda>ymd.
     raise_or (index values 1) (\<lambda>v1.
     raise_or (int_all (split v1 CHR '':'')) (\<lambda>hms.
     raise_or (index ymd 0) (\<lambda>y.
     raise_or (index ymd 1) (\<lambda>mo.
     raise_or (index ymd 2) (\<lambda>d.
     raise_or (index hms 0) (\<lambda>h.
     raise_or (index hms 1) (\<lambda>mi.
     raise_or (index hms 2) (\<lambda>s.
       datetime_new y mo d h mi s None))))))))))"

definition metadates :: "string list \<Rightarrow> py_error + datetime" where
  "metadates values =
     (case metadates_try values of
        Inl e \<Rightarrow> if e = ValueError then datetime_new 1 1 1 0 0 0 None else Inl e
      | Inr d \<Rightarrow> Inr d)"

text \<open>
  \<open>datetime.timedelta(hours=h, minutes=m)\<close>, in minutes, and
  \<open>datetime.timezone(offset)\<close>: a delta of more than 999999999 days is an
  \<open>OverflowError\<close>, an offset of a day or more a \<open>ValueError\<close>.
\<close>

definition timedelta :: "int \<Rightarrow> int \<Rightarrow> py_error + int" where
  "timedelta h m =
     (let t = 60 * h + m in
      if t div 1440 < - 999999999 \<or> 999999999 < t div 1440 then Inl OverflowError
      else Inr t)"

definition timezone :: "int \<Rightarrow> py_error + int" where
  "timezone off = (if - 1440 < off \<and> off < 1440 then Inr off else Inl ValueError)"

text \<open>
  \<open>_filedates\<close>: no handler. The positional arguments of the constructor are
  indexed first, then the \<open>tzinfo\<close> keyword argument is evaluated.
\<close>

definition filedates :: "string list \<Rightarrow> py_error + datetime" where
  "filedates values =
     raise_or (index values 0) (\<lambda>v0.
     raise_or (int_all (split v0 CHR '':'')) (\<lambda>ymd.
     raise_or (index values 1) (\<lambda>v1.
     raise_or (index (split v1 CHR ''+'') 0) (\<lambda>t.
     raise_or (int_all (split t CHR '':'')) (\<lambda>hms.
     raise_or (index (split v1 CHR ''+'') 1) (\<lambda>z.
     raise_or (Inr (split z CHR '':'')) (\<lambda>znes.
     raise_or (index ymd 0) (\<lambda>y.
     raise_or (index ymd 1) (\<lambda>mo.
     raise_or (index ymd 2) (\<lambda>d.
     raise_or (index hms 0) (\<lambda>h.
     raise_or (index hms 1) (\<lambda>mi.
     raise_or (index hms 2) (\<lambda>s.
     raise_or (index znes 0) (\<lambda>zh.
     raise_or (py_int zh) (\<lambda>oh.
     raise_or (index znes 1) (\<lambda>zm.
     raise_or (py_int zm) (\<lambda>om.
     raise_or (timedelta oh om) (\<lambda>delta.
     raise_or (timezone delta) (\<lambda>tz.
       datetime_new y mo d h mi s (Some tz))))))))))))))))))))"

text \<open>
  \<open>_setmetadates\<close>. \<open>strftime("%Y:%m:%d %H:%M:%S")\<close> pads month, day, hour,
  minute and second to two digits. The width of \<open>%Y\<close> depends on the C library
  (four digits, or no padding), so it is the parameter \<open>yw\<close>.
\<close>

definition digit_char :: "nat \<Rightarrow> char" where
  "digit_char n = ''0123456789'' ! n"

fun str_nat :: "nat \<Rightarrow> string" where
  "str_nat n = (if n < 10 then [digit_char n] else str_nat (n div 10) @ [digit_char (n mod 10)])"

declare str_nat.simps [simp del]

definition zfill :: "nat \<Rightarrow> string \<Rightarrow> string" where
  "zfill w s = replicate (w - length s) CHR ''0'' @ s"

definition strftime :: "nat \<Rightarrow> datetime \<Rightarrow> string" where
  "strftime yw d =
     zfill yw (str_nat (nat (year d))) @ '':'' @
     zfill 2 (str_nat (nat (month d))) @ '':'' @
     zfill 2 (str_nat (nat (day d))) @ '' '' @
     zfill 2 (str_nat (nat (hour d))) @ '':'' @
     zfill 2 (str_nat (nat (minute d))) @ '':'' @
     zfill 2 (str_nat (nat (second d)))"

definition setmetadates :: "nat \<Rightarrow> string \<Rightarrow> datetime \<Rightarrow> string" where
  "setmetadates yw kwrd date2add = (''-'' @ kwrd @ ''='') @ strftime yw date2add"

section \<open>pygroups: the keyword registry\<close>

record kwd =
  readable :: bool
  editable :: bool
  extensions :: "string list"

definition ExifTool :: kwd where
  "ExifTool = \<lparr>readable = True, editable = False, extensions = []\<rparr>"

definition ExifTool_tool_version :: string where
  "ExifTool_tool_version = ''ExifTool:ExifToolVersion''"

definition File :: kwd where
  "File = \<lparr>readable = True, editable = False, extensions = []\<rparr>"

definition Exif :: kwd where
  "Exif = \<lparr>readable = True, editable = True,
            extensions = [''JPEG'', ''JPG'', ''PNG'', ''MPO'']\<rparr>"

definition Exif_modify_date :: string where
  "Exif_modify_date = ''EXIF:ModifyDate''"

definition Exif_date_digitized :: string where
  "Exif_date_digitized = ''EXIF:CreateDate''"

definition Exif_datetime_original :: string where
  "Exif_datetime_original = ''EXIF:DateTimeOriginal''"

definition QuickTime :: kwd where
  "QuickTime = \<lparr>readable = True, editable = True,
                 extensions = [''MOV'', ''3GP'', ''MP4'', ''M4V'']\<rparr>"

definition QuickTime_create_date :: string where
  "QuickTime_create_date = ''QuickTime:CreateDate''"

definition QuickTime_comment :: string where
  "QuickTime_comment = ''QuickTime:Comment''"

definition Asf :: kwd where
  "Asf = \<lparr>readable = False, editable = False, extensions = []\<rparr>"

definition NoArranged :: kwd where
  "NoArranged = \<lparr>readable = False, editable = False,
                  extensions = [''BMP'', ''AVI'', ''MPG'', ''WAV'', ''MP3'']\<rparr>"

text \<open>\<open>vars(Keywords)\<close>, in declaration order, without the interpreter's own entries.\<close>

definition Keywords :: "(string \<times> kwd) list" where
  "Keywords =
     [(''ExifTool'', ExifTool), (''File'', File), (''Exif'', Exif),
      (''QuickTime'', QuickTime), (''Asf'', Asf), (''NoArranged'', NoArranged)]"

text \<open>
  The module-level loop of assertions. Every member is a keyword group by
  typing, so the \<open>isinstance\<close> assertion has no failing branch here.
\<close>

fun autotest_loop :: "(string \<times> kwd) list \<Rightarrow> py_error + unit" where
  "autotest_loop [] = Inr ()"
| "autotest_loop ((name, inst) # rest) =
     (if editable inst \<and> \<not> readable inst then Inl AssertionError
      else if ((editable inst \<or> readable inst) \<and> name \<notin> set [''ExifTool'', ''File''])
              \<and> extensions inst = []
      then Inl AssertionError
      else autotest_loop rest)"

definition autotest :: "(string \<times> kwd) list \<Rightarrow> py_error + unit" where
  "autotest members = autotest_loop (filter (\<lambda>(name, inst). \<not> contains name ''__'') members)"

section \<open>Paths and the world outside the process\<close>

text \<open>
  A path is the list of its parts, as \<open>pathlib\<close> keeps them on a POSIX system:
  the root (\<open>/\<close>, or \<open>//\<close> for exactly two leading slashes) comes first when the
  path is absolute, and the other parts are the components that are neither
  empty nor a single dot. The empty list is the current directory. \<open>joinpath\<close>
  parses its argument the same way: an absolute argument replaces the path it
  is joined to. \<open>suffix\<close> is the text of the final component from its last dot
  on, when that dot is neither its first nor its last character.
\<close>

type_synonym path = "string list"

definition is_root :: "string \<Rightarrow> bool" where
  "is_root c \<longleftrightarrow> c = ''/'' \<or> c = ''//''"

definition has_root :: "path \<Rightarrow> bool" where
  "has_root p \<longleftrightarrow> p \<noteq> [] \<and> is_root (hd p)"

definition splitroot :: "string \<Rightarrow> string \<times> string" where
  "splitroot part =
     (if part \<noteq> [] \<and> hd part = CHR ''/''
      then
        let stripped_part = dropWhile (\<lambda>c. c = CHR ''/'') part
        in if length part - length stripped_part = 2 then (''//'', stripped_part)
           else (''/'', stripped_part)
      else ([], part))"

definition parse_parts :: "string \<Rightarrow> path" where
  "parse_parts part =
     (let (root, rel) = splitroot part
      in (if root = [] then [] else [root])
         @ filter (\<lambda>x. x \<noteq> [] \<and> x \<noteq> ''.'') (split rel CHR ''/''))"

definition name :: "path \<Rightarrow> string" where
  "name p = (if length p = (if has_root p then 1 else 0) then [] else last p)"

definition parent :: "path \<Rightarrow> path" where
  "parent p = (if length p = 1 \<and> has_root p then p else butlast p)"

definition joinpath :: "path \<Rightarrow> string \<Rightarrow> path" where
  "joinpath p n = (let q = parse_parts n in if has_root q then q else p @ q)"

fun join_parts :: "string list \<Rightarrow> string" where
  "join_parts [] = []"
| "join_parts [x] = x"
| "join_parts (x # y # ys) = x @ ''/'' @ join_parts (y # ys)"

definition str_path :: "path \<Rightarrow> string" where
  "str_path p =
     (case p of
        [] \<Rightarrow> ''.''
      | r # rest \<Rightarrow> if is_root r then r @ join_parts rest else join_parts p)"

fun rfind :: "string \<Rightarrow> char \<Rightarrow> nat option" where
  "rfind [] c = None"
| "rfind (x # xs) c =
     (case rfind xs c of
        Some i \<Rightarrow> Some (Suc i)
      | None \<Rightarrow> if x = c then Some 0 else None)"

definition suffix :: "path \<Rightarrow> string" where
  "suffix p =
     (case rfind (name p) CHR ''.'' of
        None \<Rightarrow> []
      | Some i \<Rightarrow> if 0 < i \<and> i < length (name p) - 1 then drop i (name p) else [])"

text \<open>
  The world: the regular files that exist, and the record of every run of an
  external process (its arguments, and its standard output or the exception
  that \<open>subprocess.run\<close> raised).
\<close>

record world =
  files :: "path set"
  runs :: "(string list \<times> (py_error + string)) list"

text \<open>
  What the code calls and does not define: the external process
  (\<open>subprocess.run\<close>: its output or exception, and the files it leaves),
  \<open>json.loads(raw)[0]\<close>, and \<open>filetools.itername\<close> of the package
  \<open>kjmarotools\<close>.
\<close>

record ext =
  run_process :: "string list \<Rightarrow> path set \<Rightarrow> (py_error + string) \<times> path set"
  json_loads_0 :: "string \<Rightarrow> py_error + (string \<rightharpoonup> string)"
  itername :: "path set \<Rightarrow> path \<Rightarrow> path"

definition execute :: "ext \<Rightarrow> string list \<Rightarrow> world \<Rightarrow> (py_error + string) \<times> world" where
  "execute x arguments w =
     (let (out, fs) = run_process x arguments (files w)
      in (out, \<lparr>files = fs, runs = runs w @ [(arguments, out)]\<rparr>))"

text \<open>\<open>os.remove\<close>: a missing file is a \<open>FileNotFoundError\<close>.\<close>

definition os_remove :: "path \<Rightarrow> world \<Rightarrow> (py_error + unit) \<times> world" where
  "os_remove p w =
     (if p \<in> files w then (Inr (), w\<lparr>files := files w - {p}\<rparr>)
      else (Inl FileNotFoundError, w))"

section \<open>PyKernel: the session\<close>

text \<open>
  The attributes of a kernel object. Log records are not part of the model;
  \<open>log_enabled\<close> is kept because the code branches on it.
\<close>

record session =
  exiftool_path :: path
  filepath :: "path option"
  metadata :: "string \<rightharpoonup> string"
  commands :: "string list"
  log_enabled :: bool

definition init :: "path \<Rightarrow> bool \<Rightarrow> session" where
  "init tool logger =
     \<lparr>exiftool_path = tool, filepath = None, metadata = Map.empty, commands = [],
      log_enabled = logger\<rparr>"

text \<open>
  A method returns its result, or the exception it raised, together with the
  session and the world as they are at that moment: what was assigned before an
  exception stays assigned.
\<close>

definition load_file ::
  "ext \<Rightarrow> path \<Rightarrow> session \<Rightarrow> world \<Rightarrow> (py_error + unit) \<times> session \<times> world" where
  "load_file x file2load s w =
     (if file2load \<notin> files w then (Inl AssertionError, s, w)
      else
        let s1 = s\<lparr>filepath := Some file2load, commands := [], metadata := Map.empty\<rparr>;
            (out, w1) = execute x [str_path (exiftool_path s1), ''-G'', ''-J'',
                                   str_path file2load] w
        in case out of
             Inl e \<Rightarrow> (Inl e, s1, w1)
           | Inr raw_mdta \<Rightarrow>
               if contains raw_mdta ExifTool_tool_version
               then
                 let s2 = s1\<lparr>commands := commands s1 @ [str_path (exiftool_path s1)] @ [''-P'']\<rparr>
                 in case json_loads_0 x raw_mdta of
                      Inl e \<Rightarrow> (Inl e, s2, w1)
                    | Inr m \<Rightarrow> (Inr (), s2\<lparr>metadata := m\<rparr>, w1)
               else (Inr (), s1, w1))"

definition save_newname ::
  "ext \<Rightarrow> bool \<Rightarrow> string \<Rightarrow> session \<Rightarrow> world \<Rightarrow> (py_error + string) \<times> session \<times> world" where
  "save_newname x overwrite output_filename s w =
     (case filepath s of
        None \<Rightarrow> (Inl AssertionError, s, w)
      | Some fp \<Rightarrow>
          let new_file_path = joinpath (parent fp) output_filename;
              w1 = (if overwrite \<and> new_file_path \<in> files w
                    then snd (os_remove new_file_path w) else w);
              new_file_path' = itername x (files w1) new_file_path;
              s1 = s\<lparr>commands := commands s @ [''-filename='' @ str_path new_file_path']
                                             @ [str_path fp]\<rparr>;
              (out, w2) = execute x (commands s1) w1
          in (out, s1, w2))"

definition save_samename ::
  "ext \<Rightarrow> bool \<Rightarrow> session \<Rightarrow> world \<Rightarrow> (py_error + string) \<times> session \<times> world" where
  "save_samename x overwrite s w =
     (case filepath s of
        None \<Rightarrow> (Inl AssertionError, s, w)
      | Some fp \<Rightarrow>
          if \<not> overwrite
          then save_newname x False (name (itername x (files w) fp)) s w
          else
            let s1 = s\<lparr>commands := commands s @ [str_path fp]\<rparr>;
                (out, w1) = execute x (commands s1) w
            in case out of
                 Inl e \<Rightarrow> (Inl e, s1, w1)
               | Inr result \<Rightarrow>
                   (case os_remove (joinpath (parent fp) (name fp @ ''_original'')) w1 of
                      (Inl e, w2) \<Rightarrow> (Inl e, s1, w2)
                    | (Inr u, w2) \<Rightarrow> (Inr result, s1, w2)))"

definition save_file ::
  "ext \<Rightarrow> string \<Rightarrow> bool \<Rightarrow> session \<Rightarrow> world \<Rightarrow> (py_error + bool) \<times> session \<times> world" where
  "save_file x output_filename overwrite s w =
     (case filepath s of
        None \<Rightarrow> (Inr False, s, w)
      | Some fp \<Rightarrow>
          if length (commands s) = 2 then (Inr False, s, w)
          else
            let (out, s1, w1) =
                  (if output_filename = [] \<or> output_filename = name fp
                   then save_samename x overwrite s w
                   else save_newname x overwrite output_filename s w)
            in case out of
                 Inl e \<Rightarrow> (Inl e, s1, w1)
               | Inr result \<Rightarrow>
                   (Inr (\<not> contains result ''unchanged'' \<and> \<not> contains result ''errors''),
                    s1, w1))"

section \<open>PyExifKernel and PyMovKernel\<close>

text \<open>\<open>self._metadata[k]\<close> and \<open>k in self._metadata\<close>.\<close>

definition getitem :: "(string \<rightharpoonup> string) \<Rightarrow> string \<Rightarrow> py_error + string" where
  "getitem m k = (case m k of None \<Rightarrow> Inl KeyError | Some v \<Rightarrow> Inr v)"

definition has_key :: "(string \<rightharpoonup> string) \<Rightarrow> string \<Rightarrow> bool" where
  "has_key m k = (case m k of None \<Rightarrow> False | Some v \<Rightarrow> True)"

text \<open>
  The shape shared by the \<open>has_*\<close> properties: the getter runs under a
  \<open>try\<close> whose handlers are \<open>IndexError\<close>, \<open>KeyError\<close> and \<open>ValueError\<close>.
\<close>

definition try_get :: "py_error + datetime \<Rightarrow> py_error + bool" where
  "try_get r =
     (case r of
        Inr d \<Rightarrow> Inr True
      | Inl e \<Rightarrow> if e = IndexError \<or> e = KeyError \<or> e = ValueError then Inr False else Inl e)"

definition get_exif_modify_date :: "session \<Rightarrow> py_error + datetime" where
  "get_exif_modify_date s =
     raise_or (getitem (metadata s) Exif_modify_date) (\<lambda>v. metadates (split_ws v))"

definition get_exif_original_date :: "session \<Rightarrow> py_error + datetime" where
  "get_exif_original_date s =
     raise_or (getitem (metadata s) Exif_datetime_original) (\<lambda>v. metadates (split_ws v))"

definition get_exif_digitized_date :: "session \<Rightarrow> py_error + datetime" where
  "get_exif_digitized_date s =
     raise_or (getitem (metadata s) Exif_date_digitized) (\<lambda>v. metadates (split_ws v))"

definition has_exif_date_original_field :: "session \<Rightarrow> bool" where
  "has_exif_date_original_field s = has_key (metadata s) Exif_datetime_original"

definition has_exif_modify_date :: "session \<Rightarrow> py_error + bool" where
  "has_exif_modify_date s =
     (if has_key (metadata s) Exif_modify_date then try_get (get_exif_modify_date s)
      else Inr False)"

definition has_exif_original_date :: "session \<Rightarrow> py_error + bool" where
  "has_exif_original_date s =
     (if has_key (metadata s) Exif_datetime_original then try_get (get_exif_original_date s)
      else Inr False)"

definition has_exif_digitized_date :: "session \<Rightarrow> py_error + bool" where
  "has_exif_digitized_date s =
     (if has_key (metadata s) Exif_date_digitized then try_get (get_exif_digitized_date s)
      else Inr False)"

definition set_exif_modify_date :: "nat \<Rightarrow> datetime \<Rightarrow> session \<Rightarrow> session" where
  "set_exif_modify_date yw date2add s =
     s\<lparr>commands := commands s @ [setmetadates yw Exif_modify_date date2add]\<rparr>"

definition set_exif_original_date :: "nat \<Rightarrow> datetime \<Rightarrow> session \<Rightarrow> session" where
  "set_exif_original_date yw date2add s =
     s\<lparr>commands := commands s @ [setmetadates yw Exif_datetime_original date2add]\<rparr>"

definition set_exif_digitized_date :: "nat \<Rightarrow> datetime \<Rightarrow> session \<Rightarrow> session" where
  "set_exif_digitized_date yw date2add s =
     s\<lparr>commands := commands s @ [setmetadates yw Exif_date_digitized date2add]\<rparr>"

definition get_mov_create_date :: "session \<Rightarrow> py_error + datetime" where
  "get_mov_create_date s =
     raise_or (getitem (metadata s) QuickTime_create_date) (\<lambda>v. metadates (split_ws v))"

definition has_mov_create_date_field :: "session \<Rightarrow> bool" where
  "has_mov_create_date_field s = has_key (metadata s) QuickTime_create_date"

definition has_mov_create_date :: "session \<Rightarrow> py_error + bool" where
  "has_mov_create_date s =
     (if has_key (metadata s) QuickTime_create_date then try_get (get_mov_create_date s)
      else Inr False)"

definition set_mov_create_date :: "nat \<Rightarrow> datetime \<Rightarrow> session \<Rightarrow> session" where
  "set_mov_create_date yw date2add s =
     s\<lparr>commands := commands s @ [setmetadates yw QuickTime_create_date date2add]\<rparr>"

definition set_mov_comment :: "string \<Rightarrow> session \<Rightarrow> session" where
  "set_mov_comment comment s =
     s\<lparr>commands := commands s @ [''-'' @ QuickTime_comment @ ''='' @ comment]\<rparr>"

section \<open>ExifToolManager: the dispatcher\<close>

text \<open>The keywords of the base classes, in the order of \<open>__bases__\<close>.\<close>

definition bases_keywords :: "kwd list" where
  "bases_keywords = [Exif, QuickTime]"

definition fast_readable_formats :: "string list" where
  "fast_readable_formats = concat (map extensions (filter readable bases_keywords))"

definition fast_editable_formats :: "string list" where
  "fast_editable_formats = concat (map extensions (filter editable bases_keywords))"

definition extension :: "path \<Rightarrow> string" where
  "extension p = upper (drop 1 (suffix p))"

definition has_readable_metadate :: "session \<Rightarrow> py_error + bool" where
  "has_readable_metadate s =
     (case filepath s of
        None \<Rightarrow> Inl AssertionError
      | Some fp \<Rightarrow> Inr (extension fp \<in> set fast_readable_formats))"

definition has_editable_metadate :: "session \<Rightarrow> py_error + bool" where
  "has_editable_metadate s =
     (case filepath s of
        None \<Rightarrow> Inl AssertionError
      | Some fp \<Rightarrow> Inr (extension fp \<in> set fast_editable_formats))"

definition has_metadata_date_original_field :: "session \<Rightarrow> py_error + bool" where
  "has_metadata_date_original_field s =
     raise_or (has_readable_metadate s) (\<lambda>r.
       if \<not> r then Inr False
       else if has_exif_date_original_field s then Inr True
       else if has_mov_create_date_field s then Inr True
       else Inr False)"

definition has_metadata_date_original :: "session \<Rightarrow> py_error + bool" where
  "has_metadata_date_original s =
     raise_or (has_readable_metadate s) (\<lambda>r.
       if \<not> r then Inr False
       else raise_or (has_exif_original_date s) (\<lambda>e.
         if e then Inr True
         else raise_or (has_mov_create_date s) (\<lambda>m.
           if m then Inr True else Inr False)))"


definition set_date_original ::
  "nat \<Rightarrow> datetime \<Rightarrow> session \<Rightarrow> (py_error + unit) \<times> session" where
  "set_date_original yw date2add s =
     (case filepath s of
        None \<Rightarrow> (Inl AssertionError, s)
      | Some fp \<Rightarrow>
          if extension fp \<in> set (extensions Exif)
          then (Inr (), set_exif_original_date yw date2add s)
          else if extension fp \<in> set (extensions QuickTime)
          then (Inr (), set_mov_create_date yw date2add s)
          else (Inl AssertionError, s))"

section \<open>Example environments\<close>

text \<open>
  Two concrete environments for the closed statements below. In the first the
  tool answers a read with text that holds the version marker, and answers a
  write with a one-line report, leaving a backup of \<open>pics/a.jpg\<close> when it
  writes in place. In the
  second the tool prints nothing; a command line whose first token is not the
  tool cannot be started at all. Both decode every output to an empty field
  map, and both pick a free name by appending \<open>-1\<close>.
\<close>

definition example_itername :: "path set \<Rightarrow> path \<Rightarrow> path" where
  "example_itername fs p = (if p \<in> fs then butlast p @ [last p @ ''-1''] else p)"

definition example_run :: "string list \<Rightarrow> path set \<Rightarrow> (py_error + string) \<times> path set" where
  "example_run arguments fs =
     (if take 1 arguments \<noteq> [''exiftool''] then (Inl FileNotFoundError, fs)
      else if ''-J'' \<in> set arguments then (Inr ''ExifTool:ExifToolVersion'', fs)
      else if list_ex (\<lambda>a. startswith a ''-filename='') arguments
      then (Inr ''1 image files updated'', fs)
      else (Inr ''1 image files updated'', insert [''pics'', ''a.jpg_original''] fs))"

definition example_tool :: ext where
  "example_tool =
     \<lparr>run_process = example_run, json_loads_0 = (\<lambda>raw. Inr Map.empty),
      itername = example_itername\<rparr>"

definition silent_run :: "string list \<Rightarrow> path set \<Rightarrow> (py_error + string) \<times> path set" where
  "silent_run arguments fs =
     (if take 1 arguments \<noteq> [''exiftool''] then (Inl FileNotFoundError, fs)
      else (Inr [], fs))"

definition silent_tool :: ext where
  "silent_tool =
     \<lparr>run_process = silent_run, json_loads_0 = (\<lambda>raw. Inr Map.empty),
      itername = example_itername\<rparr>"

definition example_world :: world where
  "example_world = \<lparr>files = {[''pics'', ''a.jpg'']}, runs = []\<rparr>"

definition example_date :: datetime where
  "example_date =
     \<lparr>year = 2021, month = 5, day = 10, hour = 14, minute = 30, second = 0,
      microsecond = 0, tzinfo = None\<rparr>"

text \<open>
  A session at work: \<open>pics/a.jpg\<close> is loaded, one edit is queued, the file is
  saved in place, and saved in place once more. And a load that fails, where the
  tool prints nothing.
\<close>

definition loaded :: "(py_error + unit) \<times> session \<times> world" where
  "loaded = load_file example_tool [''pics'', ''a.jpg''] (init [''exiftool''] True) example_world"

definition edited :: session where
  "edited = set_exif_original_date 4 example_date (fst (snd loaded))"

definition saved :: "(py_error + bool) \<times> session \<times> world" where
  "saved = save_file example_tool [] True edited (snd (snd loaded))"

definition saved_again :: "(py_error + bool) \<times> session \<times> world" where
  "saved_again = save_file example_tool [] True (fst (snd saved)) (snd (snd saved))"

definition load_failed :: "(py_error + unit) \<times> session \<times> world" where
  "load_failed = load_file silent_tool [''pics'', ''a.jpg''] (init [''exiftool''] True) example_world"

section \<open>The registry invariant\<close>

lemma autotest_loop_error: "autotest_loop ms = Inl e \<Longrightarrow> e = AssertionError"
  by (induction ms rule: autotest_loop.induct) (auto split: if_splits)

lemma autotest_loop_passes:
  "autotest_loop ms = Inr () \<longleftrightarrow>
     (\<forall>(n, g) \<in> set ms.
        (editable g \<longrightarrow> readable g) \<and>
        ((readable g \<or> editable g) \<and> n \<noteq> ''ExifTool'' \<and> n \<noteq> ''File'' \<longrightarrow> extensions g \<noteq> []))"
  by (induction ms rule: autotest_loop.induct) auto

lemma Keywords_names: "filter (\<lambda>(n, g). \<not> contains n ''__'') Keywords = Keywords"
  by (simp add: Keywords_def)

text \<open>
  C10. Every group of the registry satisfies: editable implies readable, and
  readable or editable implies a non-empty extension list unless the group is
  ExifTool or File. The start-up check passes on the registry; on any list of
  members it passes exactly when every member it looks at satisfies the two
  rules, and when it does not pass it fails with an assertion error.
\<close>

theorem keywords_invariant:
  "(\<forall>(n, g) \<in> set Keywords.
      (editable g \<longrightarrow> readable g) \<and>
      ((readable g \<or> editable g) \<and> n \<noteq> ''ExifTool'' \<and> n \<noteq> ''File'' \<longrightarrow> extensions g \<noteq> []))
   \<and> autotest Keywords = Inr ()
   \<and> (autotest members = Inr () \<longleftrightarrow>
        (\<forall>(n, g) \<in> set members. \<not> contains n ''__'' \<longrightarrow>
           (editable g \<longrightarrow> readable g) \<and>
           ((readable g \<or> editable g) \<and> n \<noteq> ''ExifTool'' \<and> n \<noteq> ''File'' \<longrightarrow> extensions g \<noteq> [])))
   \<and> (autotest members \<noteq> Inr () \<longrightarrow> autotest members = Inl AssertionError)"
proof -
  have pass: "autotest Keywords = Inr ()"
    by (simp add: autotest_def Keywords_def ExifTool_def File_def Exif_def QuickTime_def
        Asf_def NoArranged_def)
  then have "autotest_loop Keywords = Inr ()"
    by (simp add: autotest_def Keywords_names)
  then have inv: "\<forall>(n, g) \<in> set Keywords.
      (editable g \<longrightarrow> readable g) \<and>
      ((readable g \<or> editable g) \<and> n \<noteq> ''ExifTool'' \<and> n \<noteq> ''File'' \<longrightarrow> extensions g \<noteq> [])"
    by (simp only: autotest_loop_passes)
  have gen: "autotest members = Inr () \<longleftrightarrow>
        (\<forall>(n, g) \<in> set members. \<not> contains n ''__'' \<longrightarrow>
           (editable g \<longrightarrow> readable g) \<and>
           ((readable g \<or> editable g) \<and> n \<noteq> ''ExifTool'' \<and> n \<noteq> ''File'' \<longrightarrow> extensions g \<noteq> []))"
    unfolding autotest_def autotest_loop_passes by auto
  have err: "autotest members \<noteq> Inr () \<longrightarrow> autotest members = Inl AssertionError"
  proof
    assume ne: "autotest members \<noteq> Inr ()"
    show "autotest members = Inl AssertionError"
    proof (cases "autotest members")
      case (Inl e)
      then show ?thesis using autotest_loop_error by (simp add: autotest_def)
    next
      case (Inr u)
      then show ?thesis using ne by simp
    qed
  qed
  from inv pass gen err show ?thesis by blast
qed

theorem keywords_invariant_witness:
  "autotest [(''Cam'', \<lparr>readable = False, editable = True, extensions = [''RAW'']\<rparr>),
             (''__doc__'', \<lparr>readable = True, editable = True, extensions = []\<rparr>)]
     = Inl AssertionError
   \<and> autotest [(''Exif'', Exif), (''__doc__'', \<lparr>readable = True, editable = True, extensions = []\<rparr>)]
     = Inr ()
   \<and> editable Exif \<and> readable Exif \<and> extensions Exif \<noteq> []"
proof -
  let ?bad = "[(''Cam'', \<lparr>readable = False, editable = True, extensions = [''RAW'']\<rparr>),
               (''__doc__'', \<lparr>readable = True, editable = True, extensions = []\<rparr>)]"
  let ?good = "[(''Exif'', Exif), (''__doc__'', \<lparr>readable = True, editable = True, extensions = []\<rparr>)]"
  have a: "autotest ?bad \<noteq> Inr ()"
    using keywords_invariant [of ?bad] by simp
  have b: "autotest ?good = Inr ()"
    using keywords_invariant [of ?good] by (simp add: Exif_def)
  have c: "editable Exif \<and> readable Exif \<and> extensions Exif \<noteq> []"
    using keywords_invariant [of "[]"] by (simp add: Keywords_def Exif_def)
  from a b c keywords_invariant [of ?bad] show ?thesis by blast
qed

section \<open>The embedded-metadata date codec\<close>

lemma py_int_error: "py_int s = Inl e \<Longrightarrow> e = ValueError"
  by (auto simp: py_int_def Let_def split: prod.splits option.splits if_splits)

lemma int_all_error: "int_all xs = Inl e \<Longrightarrow> e = ValueError"
  by (induction xs arbitrary: e)
     (auto simp: raise_or_def dest: py_int_error split: sum.splits)

lemma int_all_ValueError_iff:
  "int_all xs = Inl ValueError \<longleftrightarrow> (\<exists>x \<in> set xs. py_int x = Inl ValueError)"
proof (induction xs)
  case Nil
  then show ?case by simp
next
  case (Cons x xs)
  show ?case
  proof (cases "py_int x")
    case (Inl e)
    then have "e = ValueError" by (rule py_int_error)
    with Inl show ?thesis by (simp add: raise_or_def)
  next
    case (Inr n)
    then show ?thesis
      using Cons.IH by (auto simp: raise_or_def split: sum.splits)
  qed
qed

lemma datetime_new_min:
  "datetime_new 1 1 1 0 0 0 None =
     Inr \<lparr>year = 1, month = 1, day = 1, hour = 0, minute = 0, second = 0,
          microsecond = 0, tzinfo = None\<rparr>"
  by (simp add: datetime_new_def c_int_def valid_fields_def days_in_month_def)

lemma metadates_of_try:
  "metadates values =
     (case metadates_try values of
        Inl e \<Rightarrow> if e = ValueError
                 then Inr \<lparr>year = 1, month = 1, day = 1, hour = 0, minute = 0, second = 0,
                           microsecond = 0, tzinfo = None\<rparr>
                 else Inl e
      | Inr d \<Rightarrow> Inr d)"
  by (simp add: metadates_def datetime_new_min split: sum.splits)

lemma metadates_try_date_token:
  "int_all (split v0 CHR '':'') = Inl ValueError \<Longrightarrow> metadates_try (v0 # rest) = Inl ValueError"
  by (simp add: metadates_try_def raise_or_def index_def)

lemma metadates_try_time_token:
  "int_all (split v0 CHR '':'') = Inr ymd \<Longrightarrow> int_all (split v1 CHR '':'') = Inl ValueError \<Longrightarrow>
   metadates_try (v0 # v1 # rest) = Inl ValueError"
  by (simp add: metadates_try_def raise_or_def index_def)

lemma metadates_try_fields:
  "int_all (split v0 CHR '':'') = Inr (y # mo # d # ys) \<Longrightarrow>
   int_all (split v1 CHR '':'') = Inr (h # mi # s # hs) \<Longrightarrow>
   metadates_try (v0 # v1 # rest) = datetime_new y mo d h mi s None"
  by (simp add: metadates_try_def raise_or_def index_def)

lemma metadates_try_short:
  "int_all (split v0 CHR '':'') = Inr ymd \<Longrightarrow> int_all (split v1 CHR '':'') = Inr hms \<Longrightarrow>
   length ymd < 3 \<or> length hms < 3 \<Longrightarrow>
   metadates_try (v0 # v1 # rest) = Inl IndexError"
  by (auto simp: metadates_try_def raise_or_def index_def)

lemma datetime_new_error: "datetime_new y mo d h mi s tz = Inl e \<Longrightarrow> e = OverflowError \<or> e = ValueError"
  by (auto simp: datetime_new_def split: if_splits)

lemma metadates_try_error:
  "metadates_try values = Inl e \<Longrightarrow> e = IndexError \<or> e = OverflowError \<or> e = ValueError"
  unfolding metadates_try_def raise_or_def index_def
  by (auto split: sum.splits if_splits dest: int_all_error datetime_new_error)

text \<open>
  C3, counterexample. A date token with two components only, every component
  numeric: the codec raises \<open>IndexError\<close>, it does not return the sentinel.
\<close>

theorem metadates_wrong_arity_raises:
  "metadates [''2021:05'', ''10:20:30''] = Inl IndexError"
  by (simp add: metadates_def metadates_try_def raise_or_def index_def split_def py_int_def
      strip_def unsign_def c_isspace_def is_digit_def digit_val_def int_max_str_digits_def)

text \<open>
  C3, amended. The codec never raises \<open>ValueError\<close>: a non-numeric component
  in the date token, a non-numeric component in the time token after a numeric
  date token, or numeric fields that fit 32 bits and are not a calendar date and
  time of day, all give the sentinel 0001-01-01 00:00:00. Too few elements (no
  token, one numeric token, or numeric tokens with fewer than three date or time
  components) raise \<open>IndexError\<close>. The only exceptions that leave the codec are
  \<open>IndexError\<close> and \<open>OverflowError\<close>.
\<close>

theorem metadates_malformed:
  "((\<exists>x \<in> set (split v0 CHR '':''). py_int x = Inl ValueError) \<longrightarrow>
      metadates (v0 # rest) =
        Inr \<lparr>year = 1, month = 1, day = 1, hour = 0, minute = 0, second = 0,
             microsecond = 0, tzinfo = None\<rparr>)
   \<and> (int_all (split v0 CHR '':'') = Inr ymd \<and>
        (\<exists>x \<in> set (split v1 CHR '':''). py_int x = Inl ValueError) \<longrightarrow>
      metadates (v0 # v1 # rest) =
        Inr \<lparr>year = 1, month = 1, day = 1, hour = 0, minute = 0, second = 0,
             microsecond = 0, tzinfo = None\<rparr>)
   \<and> (int_all (split v0 CHR '':'') = Inr (y # mo # d # ys) \<and>
        int_all (split v1 CHR '':'') = Inr (h # mi # s # hs) \<and>
        c_int y \<and> c_int mo \<and> c_int d \<and> c_int h \<and> c_int mi \<and> c_int s \<and>
        \<not> valid_fields y mo d h mi s \<longrightarrow>
      metadates (v0 # v1 # rest) =
        Inr \<lparr>year = 1, month = 1, day = 1, hour = 0, minute = 0, second = 0,
             microsecond = 0, tzinfo = None\<rparr>)
   \<and> metadates [] = Inl IndexError
   \<and> (int_all (split v0 CHR '':'') = Inr ymd \<longrightarrow> metadates [v0] = Inl IndexError)
   \<and> (int_all (split v0 CHR '':'') = Inr ymd \<and> int_all (split v1 CHR '':'') = Inr hms \<and>
        (length ymd < 3 \<or> length hms < 3) \<longrightarrow>
      metadates (v0 # v1 # rest) = Inl IndexError)
   \<and> (metadates values = Inl e \<longrightarrow> e = IndexError \<or> e = OverflowError)"
proof -
  have a: "(\<exists>x \<in> set (split v0 CHR '':''). py_int x = Inl ValueError) \<longrightarrow>
      metadates (v0 # rest) =
        Inr \<lparr>year = 1, month = 1, day = 1, hour = 0, minute = 0, second = 0,
             microsecond = 0, tzinfo = None\<rparr>"
    by (simp add: metadates_of_try metadates_try_date_token int_all_ValueError_iff [symmetric])
  have b: "int_all (split v0 CHR '':'') = Inr ymd \<and>
        (\<exists>x \<in> set (split v1 CHR '':''). py_int x = Inl ValueError) \<longrightarrow>
      metadates (v0 # v1 # rest) =
        Inr \<lparr>year = 1, month = 1, day = 1, hour = 0, minute = 0, second = 0,
             microsecond = 0, tzinfo = None\<rparr>"
    by (simp add: metadates_of_try metadates_try_time_token int_all_ValueError_iff [symmetric])
  have c: "int_all (split v0 CHR '':'') = Inr (y # mo # d # ys) \<and>
        int_all (split v1 CHR '':'') = Inr (h # mi # s # hs) \<and>
        c_int y \<and> c_int mo \<and> c_int d \<and> c_int h \<and> c_int mi \<and> c_int s \<and>
        \<not> valid_fields y mo d h mi s \<longrightarrow>
      metadates (v0 # v1 # rest) =
        Inr \<lparr>year = 1, month = 1, day = 1, hour = 0, minute = 0, second = 0,
             microsecond = 0, tzinfo = None\<rparr>"
    by (simp add: metadates_of_try metadates_try_fields datetime_new_def)
  have d: "metadates [] = Inl IndexError"
    by (simp add: metadates_of_try metadates_try_def raise_or_def index_def)
  have e: "int_all (split v0 CHR '':'') = Inr ymd \<longrightarrow> metadates [v0] = Inl IndexError"
    by (simp add: metadates_of_try metadates_try_def raise_or_def index_def)
  have f: "int_all (split v0 CHR '':'') = Inr ymd \<and> int_all (split v1 CHR '':'') = Inr hms \<and>
        (length ymd < 3 \<or> length hms < 3) \<longrightarrow>
      metadates (v0 # v1 # rest) = Inl IndexError"
    using metadates_try_short [of v0 ymd v1 hms rest] by (simp add: metadates_of_try)
  have g: "metadates values = Inl e \<longrightarrow> e = IndexError \<or> e = OverflowError"
    using metadates_try_error [of "values"]
    by (auto simp: metadates_of_try split: sum.splits if_splits)
  from a b c d e f g show ?thesis by blast
qed

theorem metadates_malformed_witness:
  "metadates [''not:a:date'', ''garbage''] =
     Inr \<lparr>year = 1, month = 1, day = 1, hour = 0, minute = 0, second = 0,
          microsecond = 0, tzinfo = None\<rparr>
   \<and> metadates [''2021:05:10'', ''14:xx:00''] =
     Inr \<lparr>year = 1, month = 1, day = 1, hour = 0, minute = 0, second = 0,
          microsecond = 0, tzinfo = None\<rparr>
   \<and> metadates [''2021:02:30'', ''14:30:00''] =
     Inr \<lparr>year = 1, month = 1, day = 1, hour = 0, minute = 0, second = 0,
          microsecond = 0, tzinfo = None\<rparr>
   \<and> metadates [''2021:05:10''] = Inl IndexError
   \<and> metadates [''2021:05:10'', ''14:30''] = Inl IndexError"
proof -
  have ev: "int_all (split ''2021:05:10'' CHR '':'') = Inr [2021, 5, 10]"
    "int_all (split ''2021:02:30'' CHR '':'') = Inr [2021, 2, 30]"
    "int_all (split ''14:30:00'' CHR '':'') = Inr [14, 30, 0]"
    "int_all (split ''14:30'' CHR '':'') = Inr [14, 30]"
    "py_int ''not'' = Inl ValueError" "py_int ''xx'' = Inl ValueError"
    "split ''not:a:date'' CHR '':'' = [''not'', ''a'', ''date'']"
    "split ''14:xx:00'' CHR '':'' = [''14'', ''xx'', ''00'']"
    by (simp_all add: raise_or_def split_def py_int_def strip_def unsign_def c_isspace_def
        is_digit_def digit_val_def int_max_str_digits_def)
  have nv: "\<not> valid_fields 2021 2 30 14 30 0"
    by (simp add: valid_fields_def days_in_month_def is_leap_def)
  have ci: "c_int 2021" "c_int 2" "c_int 30" "c_int 14" "c_int 0"
    by (simp_all add: c_int_def)
  have 1: "metadates [''not:a:date'', ''garbage''] =
     Inr \<lparr>year = 1, month = 1, day = 1, hour = 0, minute = 0, second = 0,
          microsecond = 0, tzinfo = None\<rparr>"
    using metadates_malformed [of "''not:a:date''" "[''garbage'']"] ev by simp
  have 2: "metadates [''2021:05:10'', ''14:xx:00''] =
     Inr \<lparr>year = 1, month = 1, day = 1, hour = 0, minute = 0, second = 0,
          microsecond = 0, tzinfo = None\<rparr>"
    using metadates_malformed [of "''2021:05:10''" "[]" "[2021, 5, 10]" "''14:xx:00''"] ev by simp
  have 3: "metadates [''2021:02:30'', ''14:30:00''] =
     Inr \<lparr>year = 1, month = 1, day = 1, hour = 0, minute = 0, second = 0,
          microsecond = 0, tzinfo = None\<rparr>"
    using metadates_malformed [of "''2021:02:30''" "[]" "[2021, 2, 30]" "''14:30:00''"
        2021 2 30 "[]" 14 30 0 "[]"] ev nv ci by simp
  have 4: "metadates [''2021:05:10''] = Inl IndexError"
    using metadates_malformed [of "''2021:05:10''" "[]" "[2021, 5, 10]"] ev by simp
  have 5: "metadates [''2021:05:10'', ''14:30''] = Inl IndexError"
    using metadates_malformed [of "''2021:05:10''" "[]" "[2021, 5, 10]" "''14:30''"
        2021 5 10 "[]" 14 30 0 "[]" "[14, 30]"] ev by simp
  from 1 2 3 4 5 show ?thesis by blast
qed

lemmas path_defs =
  str_path_def name_def parent_def joinpath_def parse_parts_def splitroot_def has_root_def
  is_root_def split_def

lemmas eval_defs =
  raise_or_def index_def split_def split_ws_def isspace_def py_int_def strip_def unsign_def
  c_isspace_def is_digit_def digit_val_def int_max_str_digits_def
  datetime_new_def c_int_def valid_fields_def days_in_month_def is_leap_def
  getitem_def has_key_def try_get_def
  Exif_datetime_original_def Exif_modify_date_def Exif_date_digitized_def
  QuickTime_create_date_def QuickTime_comment_def

section \<open>The filesystem-metadata date codec\<close>

text \<open>
  C9. With a positive offset the codec splits the offset off and attaches it
  as the time zone (here +02:00, 120 minutes). With a negative offset there is
  no \<open>+\<close> to split at: the time token is converted whole and \<open>int\<close> raises
  \<open>ValueError\<close> on \<open>00-05\<close>. A time token without any offset raises
  \<open>IndexError\<close>.
\<close>

theorem filedates_negative_offset:
  "filedates [''2021:05:10'', ''14:30:00+02:00''] =
     Inr \<lparr>year = 2021, month = 5, day = 10, hour = 14, minute = 30, second = 0,
          microsecond = 0, tzinfo = Some 120\<rparr>
   \<and> filedates [''2021:05:10'', ''14:30:00-05:00''] = Inl ValueError
   \<and> filedates [''2021:05:10'', ''14:30:00''] = Inl IndexError"
  by (simp add: filedates_def timedelta_def timezone_def eval_defs)

section \<open>The field checks\<close>

text \<open>
  C5. A tag that is present with a value the codec cannot parse: the all-zero
  date that cameras with an unset clock write, and plain text. The codec
  swallows the \<open>ValueError\<close> and returns its sentinel, so the handlers of the
  check never run and the check answers \<open>True\<close>. A year beyond 32 bits makes
  the check raise \<open>OverflowError\<close>.
\<close>

theorem has_date_unparsable_value:
  "has_exif_original_date
     ((init [''exiftool''] True)
        \<lparr>metadata := [Exif_datetime_original \<mapsto> ''0000:00:00 00:00:00'']\<rparr>) = Inr True
   \<and> has_exif_modify_date
     ((init [''exiftool''] True)
        \<lparr>metadata := [Exif_modify_date \<mapsto> ''not:a:date garbage'']\<rparr>) = Inr True
   \<and> has_mov_create_date
     ((init [''exiftool''] True)
        \<lparr>metadata := [QuickTime_create_date \<mapsto> ''not:a:date garbage'']\<rparr>) = Inr True
   \<and> has_exif_original_date
     ((init [''exiftool''] True)
        \<lparr>metadata := [Exif_datetime_original \<mapsto> ''99999999999:01:01 00:00:00'']\<rparr>)
     = Inl OverflowError"
  by (simp add: has_exif_original_date_def has_exif_modify_date_def has_mov_create_date_def
      get_exif_original_date_def get_exif_modify_date_def get_mov_create_date_def
      init_def metadates_def metadates_try_def eval_defs)

section \<open>The dispatcher\<close>

text \<open>
  C6. With a file loaded, \<open>set_date_original\<close> looks at nothing but the
  upper-cased extension of the file name: an extension of the Exif group
  (JPEG, JPG, PNG, MPO) appends the token for EXIF:DateTimeOriginal, an
  extension of the QuickTime group (MOV, 3GP, MP4, M4V) appends the token for
  QuickTime:CreateDate, and any other extension is an assertion error that
  leaves the session, and so the pending commands, as they were.
\<close>

theorem set_date_original_dispatch:
  "filepath s = Some fp \<Longrightarrow>
   set_date_original yw d s =
     (if extension fp \<in> {''JPEG'', ''JPG'', ''PNG'', ''MPO''}
      then (Inr (), s\<lparr>commands := commands s @ [''-EXIF:DateTimeOriginal='' @ strftime yw d]\<rparr>)
      else if extension fp \<in> {''MOV'', ''3GP'', ''MP4'', ''M4V''}
      then (Inr (), s\<lparr>commands := commands s @ [''-QuickTime:CreateDate='' @ strftime yw d]\<rparr>)
      else (Inl AssertionError, s))"
  by (simp add: set_date_original_def set_exif_original_date_def set_mov_create_date_def
      setmetadates_def Exif_def QuickTime_def Exif_datetime_original_def
      QuickTime_create_date_def)

theorem set_date_original_dispatch_witness:
  "set_date_original 4
     \<lparr>year = 2021, month = 5, day = 10, hour = 14, minute = 30, second = 0,
      microsecond = 0, tzinfo = None\<rparr>
     ((init [''exiftool''] True)\<lparr>filepath := Some [''pics'', ''a.jpg''],
                                 commands := [''exiftool'', ''-P'']\<rparr>)
   = (Inr (), (init [''exiftool''] True)
        \<lparr>filepath := Some [''pics'', ''a.jpg''],
         commands := [''exiftool'', ''-P'', ''-EXIF:DateTimeOriginal=2021:05:10 14:30:00'']\<rparr>)
   \<and> set_date_original 4
     \<lparr>year = 2021, month = 5, day = 10, hour = 14, minute = 30, second = 0,
      microsecond = 0, tzinfo = None\<rparr>
     ((init [''exiftool''] True)\<lparr>filepath := Some [''pics'', ''b.Mov''],
                                 commands := [''exiftool'', ''-P'']\<rparr>)
   = (Inr (), (init [''exiftool''] True)
        \<lparr>filepath := Some [''pics'', ''b.Mov''],
         commands := [''exiftool'', ''-P'', ''-QuickTime:CreateDate=2021:05:10 14:30:00'']\<rparr>)
   \<and> set_date_original 4
     \<lparr>year = 2021, month = 5, day = 10, hour = 14, minute = 30, second = 0,
      microsecond = 0, tzinfo = None\<rparr>
     ((init [''exiftool''] True)\<lparr>filepath := Some [''pics'', ''c.txt''],
                                 commands := [''exiftool'', ''-P'']\<rparr>)
   = (Inl AssertionError, (init [''exiftool''] True)
        \<lparr>filepath := Some [''pics'', ''c.txt''], commands := [''exiftool'', ''-P'']\<rparr>)"
proof -
  let ?d = "\<lparr>year = 2021, month = 5, day = 10, hour = 14, minute = 30, second = 0,
             microsecond = 0, tzinfo = None\<rparr>"
  let ?s = "\<lambda>p. (init [''exiftool''] True)\<lparr>filepath := Some p, commands := [''exiftool'', ''-P'']\<rparr>"
  have f: "\<And>p. filepath (?s p) = Some p"
    by (simp add: init_def)
  have e1: "extension [''pics'', ''a.jpg''] = ''JPG''"
    by (simp add: extension_def upper_def upper_char_def suffix_def name_def has_root_def is_root_def)
  have e2: "extension [''pics'', ''b.Mov''] = ''MOV''"
    by (simp add: extension_def upper_def upper_char_def suffix_def name_def has_root_def is_root_def)
  have e3: "extension [''pics'', ''c.txt''] = ''TXT''"
    by (simp add: extension_def upper_def upper_char_def suffix_def name_def has_root_def is_root_def)
  have t: "strftime 4 ?d = ''2021:05:10 14:30:00''"
    by (simp add: strftime_def zfill_def str_nat.simps digit_char_def)
  show ?thesis
    using set_date_original_dispatch [OF f, of 4 ?d "[''pics'', ''a.jpg'']"]
      set_date_original_dispatch [OF f, of 4 ?d "[''pics'', ''b.Mov'']"]
      set_date_original_dispatch [OF f, of 4 ?d "[''pics'', ''c.txt'']"]
    by (simp add: e1 e2 e3 t init_def)
qed








section \<open>Saving\<close>

lemma execute_runs:
  "execute x arguments w = (out, w') \<Longrightarrow> runs w' = runs w @ [(arguments, out)]"
  by (auto simp: execute_def Let_def split: prod.splits)

lemma os_remove_runs: "os_remove p w = (r, w') \<Longrightarrow> runs w' = runs w"
  by (auto simp: os_remove_def split: if_splits)

lemma os_remove_error: "os_remove p w = (Inl e, w') \<Longrightarrow> e = FileNotFoundError"
  by (auto simp: os_remove_def split: if_splits)

lemma save_newname_effect:
  assumes "filepath s = Some fp" and "save_newname x overwrite output_filename s w = (r, s', w')"
  shows "runs w' = runs w @ [(commands s', r)]
         \<and> (\<exists>t. commands s' = commands s @ [t, str_path fp])
         \<and> filepath s' = Some fp"
proof -
  let ?p = "joinpath (parent fp) output_filename"
  let ?w1 = "if overwrite \<and> ?p \<in> files w then snd (os_remove ?p w) else w"
  let ?s1 = "s\<lparr>commands := commands s @ [''-filename='' @ str_path (itername x (files ?w1) ?p)]
                                        @ [str_path fp]\<rparr>"
  have w1: "runs ?w1 = runs w"
    by (simp add: os_remove_def)
  obtain out w2 where ex: "execute x (commands ?s1) ?w1 = (out, w2)"
    by (cases "execute x (commands ?s1) ?w1")
  from assms ex have res: "r = out" "s' = ?s1" "w' = w2"
    by (simp_all add: save_newname_def Let_def)
  from execute_runs [OF ex] w1 have "runs w2 = runs w @ [(commands ?s1, out)]"
    by simp
  with res assms(1) show ?thesis by simp
qed

lemma save_samename_effect:
  assumes "filepath s = Some fp" and "save_samename x overwrite s w = (r, s', w')"
  shows "\<exists>t. runs w' = runs w @ [(commands s', t)]
           \<and> (r = t \<or> (overwrite \<and> r = Inl FileNotFoundError \<and> (\<exists>result. t = Inr result)))
           \<and> (\<exists>extra. extra \<noteq> [] \<and> commands s' = commands s @ extra)
           \<and> filepath s' = Some fp"
proof (cases overwrite)
  case False
  with assms have "save_newname x False (name (itername x (files w) fp)) s w = (r, s', w')"
    by (simp add: save_samename_def)
  from save_newname_effect [OF assms(1) this] show ?thesis by auto
next
  case True
  let ?s1 = "s\<lparr>commands := commands s @ [str_path fp]\<rparr>"
  obtain out w1 where ex: "execute x (commands ?s1) w = (out, w1)"
    by (cases "execute x (commands ?s1) w")
  note rn = execute_runs [OF ex]
  show ?thesis
  proof (cases out)
    case (Inl e)
    with assms True ex have "r = Inl e" "s' = ?s1" "w' = w1"
      by (simp_all add: save_samename_def Let_def)
    with rn Inl assms(1) show ?thesis by auto
  next
    case (Inr result)
    let ?b = "joinpath (parent fp) (name fp @ ''_original'')"
    obtain q w2 where rm: "os_remove ?b w1 = (q, w2)"
      by (cases "os_remove ?b w1")
    note rr = os_remove_runs [OF rm]
    show ?thesis
    proof (cases q)
      case (Inl e)
      with rm have "e = FileNotFoundError" by (auto dest: os_remove_error)
      with assms True ex Inr rm Inl have "r = Inl FileNotFoundError" "s' = ?s1" "w' = w2"
        by (simp_all add: save_samename_def Let_def)
      with rn rr Inr True assms(1) show ?thesis by auto
    next
      case (Inr u)
      with assms True ex \<open>out = Inr result\<close> rm have "r = Inr result" "s' = ?s1" "w' = w2"
        by (simp_all add: save_samename_def Let_def)
      with rn rr \<open>out = Inr result\<close> assms(1) show ?thesis by auto
    qed
  qed
qed

lemma save_file_guard:
  "filepath s = None \<or> length (commands s) = 2 \<Longrightarrow>
   save_file x output_filename overwrite s w = (Inr False, s, w)"
  by (auto simp: save_file_def split: option.splits)

lemma save_file_effect:
  assumes fp: "filepath s = Some fp" and len: "length (commands s) \<noteq> 2"
    and sv: "save_file x output_filename overwrite s w = (r, s', w')"
  shows "\<exists>t. runs w' = runs w @ [(commands s', t)]
           \<and> (case t of
                 Inl e \<Rightarrow> r = Inl e
               | Inr result \<Rightarrow>
                   r = Inr (\<not> contains result ''unchanged'' \<and> \<not> contains result ''errors'')
                   \<or> (overwrite \<and> (output_filename = [] \<or> output_filename = name fp)
                       \<and> r = Inl FileNotFoundError))
           \<and> (\<exists>extra. extra \<noteq> [] \<and> commands s' = commands s @ extra)
           \<and> filepath s' = Some fp"
proof (cases "output_filename = [] \<or> output_filename = name fp")
  case True
  obtain q s1 w1 where sm: "save_samename x overwrite s w = (q, s1, w1)"
    by (cases "save_samename x overwrite s w")
  from sv fp len True sm have r: "r = (case q of Inl e \<Rightarrow> Inl e
      | Inr result \<Rightarrow> Inr (\<not> contains result ''unchanged'' \<and> \<not> contains result ''errors''))"
    and eq: "s' = s1" "w' = w1"
    by (auto simp: save_file_def split: sum.splits)
  from save_samename_effect [OF fp sm] obtain t where
    t: "runs w1 = runs w @ [(commands s1, t)]"
      "q = t \<or> (overwrite \<and> q = Inl FileNotFoundError \<and> (\<exists>result. t = Inr result))"
      "\<exists>extra. extra \<noteq> [] \<and> commands s1 = commands s @ extra" "filepath s1 = Some fp"
    by blast
  from t(2) r True have
    "case t of Inl e \<Rightarrow> r = Inl e
     | Inr result \<Rightarrow>
         r = Inr (\<not> contains result ''unchanged'' \<and> \<not> contains result ''errors'')
         \<or> (overwrite \<and> (output_filename = [] \<or> output_filename = name fp)
             \<and> r = Inl FileNotFoundError)"
    by (auto split: sum.splits)
  with t eq show ?thesis by blast
next
  case False
  obtain q s1 w1 where sn: "save_newname x overwrite output_filename s w = (q, s1, w1)"
    by (cases "save_newname x overwrite output_filename s w")
  from sv fp len False sn have r: "r = (case q of Inl e \<Rightarrow> Inl e
      | Inr result \<Rightarrow> Inr (\<not> contains result ''unchanged'' \<and> \<not> contains result ''errors''))"
    and eq: "s' = s1" "w' = w1"
    by (auto simp: save_file_def split: sum.splits)
  from save_newname_effect [OF fp sn] have
    t: "runs w1 = runs w @ [(commands s1, q)]"
      "\<exists>t. commands s1 = commands s @ [t, str_path fp]" "filepath s1 = Some fp"
    by blast+
  from t(2) have ex: "\<exists>extra. extra \<noteq> [] \<and> commands s1 = commands s @ extra"
    by blast
  from r have
    "case q of Inl e \<Rightarrow> r = Inl e
     | Inr result \<Rightarrow>
         r = Inr (\<not> contains result ''unchanged'' \<and> \<not> contains result ''errors'')
         \<or> (overwrite \<and> (output_filename = [] \<or> output_filename = name fp)
             \<and> r = Inl FileNotFoundError)"
    by (auto split: sum.splits)
  with t(1,3) ex eq show ?thesis by blast
qed

lemma save_newname_result:
  assumes fp: "filepath s = Some fp"
    and sv: "save_newname x overwrite n s w = (r, s', w')"
    and fs: "fs = (if overwrite then files w - {joinpath (parent fp) n} else files w)"
  shows "commands s' =
           commands s @ [''-filename='' @ str_path (itername x fs (joinpath (parent fp) n)),
                         str_path fp]"
    and "run_process x (commands s') fs = (r, files w')"
    and "runs w' = runs w @ [(commands s', r)]"
proof -
  let ?p = "joinpath (parent fp) n"
  let ?w1 = "if overwrite \<and> ?p \<in> files w then snd (os_remove ?p w) else w"
  let ?s1 = "s\<lparr>commands := commands s @ [''-filename='' @ str_path (itername x (files ?w1) ?p)]
                                        @ [str_path fp]\<rparr>"
  have w1: "runs ?w1 = runs w" "files ?w1 = fs"
    using fs by (auto simp: os_remove_def)
  obtain out w2 where ex: "execute x (commands ?s1) ?w1 = (out, w2)"
    by (cases "execute x (commands ?s1) ?w1")
  from sv fp ex have res: "r = out" "s' = ?s1" "w' = w2"
    by (simp_all add: save_newname_def Let_def)
  from res(2) w1(2) show "commands s' =
           commands s @ [''-filename='' @ str_path (itername x fs (joinpath (parent fp) n)),
                         str_path fp]"
    by simp
  from ex res w1(2) show "run_process x (commands s') fs = (r, files w')"
    by (auto simp: execute_def Let_def split: prod.splits)
  from execute_runs [OF ex] w1(1) res show "runs w' = runs w @ [(commands s', r)]"
    by simp
qed

lemma save_samename_overwrite_result:
  assumes fp: "filepath s = Some fp"
    and sv: "save_samename x True s w = (r, s', w')"
    and run: "run_process x (commands s') (files w) = (t, fs')"
  shows "commands s' = commands s @ [str_path fp]"
    and "runs w' = runs w @ [(commands s', t)]"
    and "r = (case t of
                Inl e \<Rightarrow> Inl e
              | Inr result \<Rightarrow>
                  if joinpath (parent fp) (name fp @ ''_original'') \<in> fs' then Inr result
                  else Inl FileNotFoundError)"
    and "files w' = (case t of
                       Inl e \<Rightarrow> fs'
                     | Inr result \<Rightarrow> fs' - {joinpath (parent fp) (name fp @ ''_original'')})"
proof -
  let ?s1 = "s\<lparr>commands := commands s @ [str_path fp]\<rparr>"
  let ?b = "joinpath (parent fp) (name fp @ ''_original'')"
  obtain out w1 where ex: "execute x (commands ?s1) w = (out, w1)"
    by (cases "execute x (commands ?s1) w")
  from sv fp ex have s': "s' = ?s1"
    by (auto simp: save_samename_def Let_def split: sum.splits prod.splits)
  then show c: "commands s' = commands s @ [str_path fp]" by simp
  from ex run s' have out: "out = t" "files w1 = fs'" "runs w1 = runs w @ [(commands s', t)]"
    by (auto simp: execute_def Let_def split: prod.splits)
  from sv fp ex out have all: "runs w' = runs w @ [(commands s', t)]
    \<and> r = (case t of
                Inl e \<Rightarrow> Inl e
              | Inr result \<Rightarrow> if ?b \<in> fs' then Inr result else Inl FileNotFoundError)
    \<and> files w' = (case t of Inl e \<Rightarrow> fs' | Inr result \<Rightarrow> fs' - {?b})"
    by (auto simp: save_samename_def Let_def os_remove_def split: sum.splits prod.splits if_splits)
  from all show "runs w' = runs w @ [(commands s', t)]" by blast
  from all show "r = (case t of
                Inl e \<Rightarrow> Inl e
              | Inr result \<Rightarrow> if ?b \<in> fs' then Inr result else Inl FileNotFoundError)"
    by blast
  from all show "files w' = (case t of Inl e \<Rightarrow> fs' | Inr result \<Rightarrow> fs' - {?b})"
    by blast
qed

text \<open>
  C1, amended. A call of \<open>save_file\<close> with a file loaded and a command list
  whose length is not two runs the tool once. The arguments are the command list
  with the tokens of the call appended: the file path alone when the save is in
  place and overwriting, else the rename directive for the free name and the
  file path. If the run raises, \<open>save_file\<close> raises the same exception. If the run
  returns text, \<open>save_file\<close> returns \<open>True\<close> exactly when the text holds neither
  \<open>unchanged\<close> nor \<open>errors\<close>, with one exception: in place and overwriting, when
  the run left no backup \<open>name_original\<close> beside the file, \<open>save_file\<close> raises
  \<open>FileNotFoundError\<close> whatever the text; when the backup is there it is deleted.
\<close>

theorem save_file_result:
  assumes fp: "filepath s = Some fp" and len: "length (commands s) \<noteq> 2"
    and sv: "save_file x output_filename overwrite s w = (r, s', w')"
    and same: "same \<longleftrightarrow> output_filename = [] \<or> output_filename = name fp"
    and fs: "fs = (if overwrite \<and> \<not> same
                   then files w - {joinpath (parent fp) output_filename} else files w)"
    and bk: "backup = joinpath (parent fp) (name fp @ ''_original'')"
    and run: "run_process x (commands s') fs = (t, fs')"
  shows "commands s' =
           commands s @
           (if overwrite \<and> same then [str_path fp]
            else [''-filename='' @ str_path (itername x fs (joinpath (parent fp)
                     (if same then name (itername x (files w) fp) else output_filename))),
                  str_path fp])
   \<and> runs w' = runs w @ [(commands s', t)]
   \<and> (\<forall>e. t = Inl e \<longrightarrow> r = Inl e \<and> files w' = fs')
   \<and> (\<forall>result. t = Inr result \<longrightarrow>
         r = (if overwrite \<and> same \<and> backup \<notin> fs' then Inl FileNotFoundError
              else Inr (\<not> contains result ''unchanged'' \<and> \<not> contains result ''errors''))
         \<and> files w' = (if overwrite \<and> same then fs' - {backup} else fs'))"
proof (cases "overwrite \<and> same")
  case True
  then have ow: overwrite and sm: "output_filename = [] \<or> output_filename = name fp"
    using same by simp_all
  from True fs have fsw: "fs = files w" by simp
  obtain q s1 w1 where sm1: "save_samename x True s w = (q, s1, w1)"
    by (cases "save_samename x True s w")
  from sv fp len sm ow sm1 have r: "r = (case q of Inl e \<Rightarrow> Inl e
      | Inr result \<Rightarrow> Inr (\<not> contains result ''unchanged'' \<and> \<not> contains result ''errors''))"
    and eq: "s' = s1" "w' = w1"
    by (auto simp: save_file_def split: sum.splits)
  from run fsw eq have run1: "run_process x (commands s1) (files w) = (t, fs')" by simp
  note res = save_samename_overwrite_result [OF fp sm1 run1]
  from res(1) eq True have 1: "commands s' = commands s @ [str_path fp]" by simp
  from res(2) eq have 2: "runs w' = runs w @ [(commands s', t)]" by simp
  from res(3,4) r eq bk have 3: "\<forall>e. t = Inl e \<longrightarrow> r = Inl e \<and> files w' = fs'"
    by simp
  from res(3,4) r eq bk have 4: "\<forall>result. t = Inr result \<longrightarrow>
         r = (if backup \<notin> fs' then Inl FileNotFoundError
              else Inr (\<not> contains result ''unchanged'' \<and> \<not> contains result ''errors''))
         \<and> files w' = fs' - {backup}"
    by simp
  from 1 2 3 4 True show ?thesis by simp
next
  case False
  define n where "n = (if same then name (itername x (files w) fp) else output_filename)"
  define ow where "ow = (overwrite \<and> \<not> same)"
  obtain q s1 w1 where sn: "save_newname x ow n s w = (q, s1, w1)"
    by (cases "save_newname x ow n s w")
  have call: "(if output_filename = [] \<or> output_filename = name fp
               then save_samename x overwrite s w
               else save_newname x overwrite output_filename s w) = (q, s1, w1)"
  proof (cases same)
    case True
    with False have "\<not> overwrite" by simp
    with True same fp sn show ?thesis
      by (simp add: save_samename_def n_def ow_def)
  next
    case nsame: False
    with same sn show ?thesis
      by (simp add: n_def ow_def)
  qed
  from sv fp len call have r: "r = (case q of Inl e \<Rightarrow> Inl e
      | Inr result \<Rightarrow> Inr (\<not> contains result ''unchanged'' \<and> \<not> contains result ''errors''))"
    and eq: "s' = s1" "w' = w1"
    by (auto simp: save_file_def split: sum.splits)
  have fs1: "fs = (if ow then files w - {joinpath (parent fp) n} else files w)"
    using fs by (simp add: ow_def n_def)
  note res = save_newname_result [OF fp sn fs1]
  from res(2) run eq have t: "t = q" "fs' = files w'" by simp_all
  from res(1) eq False have 1: "commands s' =
           commands s @ [''-filename='' @ str_path (itername x fs (joinpath (parent fp) n)),
                         str_path fp]"
    by simp
  from res(3) eq t have 2: "runs w' = runs w @ [(commands s', t)]" by simp
  from r t have 3: "\<forall>e. t = Inl e \<longrightarrow> r = Inl e \<and> files w' = fs'" by simp
  from r t have 4: "\<forall>result. t = Inr result \<longrightarrow>
         r = Inr (\<not> contains result ''unchanged'' \<and> \<not> contains result ''errors'')
         \<and> files w' = fs'" by simp
  from False have nf: "(overwrite \<and> same) = False" "(overwrite \<and> same \<and> backup \<notin> fs') = False"
    by auto
  from 1 2 3 4 show ?thesis unfolding nf by (simp add: n_def)
qed

section \<open>The example session, evaluated\<close>

lemma strftime_example: "strftime 4 example_date = ''2021:05:10 14:30:00''"
  by (simp add: strftime_def example_date_def zfill_def str_nat.simps digit_char_def)

lemma loaded_eval:
  "loaded =
     (Inr (),
      \<lparr>exiftool_path = [''exiftool''], filepath = Some [''pics'', ''a.jpg''],
       metadata = Map.empty, commands = [''exiftool'', ''-P''], log_enabled = True\<rparr>,
      \<lparr>files = {[''pics'', ''a.jpg'']},
       runs = [([''exiftool'', ''-G'', ''-J'', ''pics/a.jpg''],
                Inr ''ExifTool:ExifToolVersion'')]\<rparr>)"
  by (simp add: loaded_def load_file_def execute_def example_tool_def example_run_def init_def
      example_world_def str_path_def is_root_def ExifTool_tool_version_def)

lemma edited_eval:
  "edited =
     \<lparr>exiftool_path = [''exiftool''], filepath = Some [''pics'', ''a.jpg''],
      metadata = Map.empty,
      commands = [''exiftool'', ''-P'', ''-EXIF:DateTimeOriginal=2021:05:10 14:30:00''],
      log_enabled = True\<rparr>"
  by (simp add: edited_def loaded_eval set_exif_original_date_def setmetadates_def
      strftime_example Exif_datetime_original_def)

lemma saved_eval:
  "saved =
     (Inr True,
      \<lparr>exiftool_path = [''exiftool''], filepath = Some [''pics'', ''a.jpg''],
       metadata = Map.empty,
       commands = [''exiftool'', ''-P'', ''-EXIF:DateTimeOriginal=2021:05:10 14:30:00'',
                   ''pics/a.jpg''],
       log_enabled = True\<rparr>,
      \<lparr>files = {[''pics'', ''a.jpg'']},
       runs = [([''exiftool'', ''-G'', ''-J'', ''pics/a.jpg''],
                Inr ''ExifTool:ExifToolVersion''),
               ([''exiftool'', ''-P'', ''-EXIF:DateTimeOriginal=2021:05:10 14:30:00'',
                 ''pics/a.jpg''], Inr ''1 image files updated'')]\<rparr>)"
  by (simp add: saved_def edited_eval loaded_eval save_file_def save_samename_def execute_def
      os_remove_def example_tool_def example_run_def path_defs)

lemma saved_again_eval:
  "fst saved_again = Inr True
   \<and> runs (snd (snd saved_again)) =
       [([''exiftool'', ''-G'', ''-J'', ''pics/a.jpg''], Inr ''ExifTool:ExifToolVersion''),
        ([''exiftool'', ''-P'', ''-EXIF:DateTimeOriginal=2021:05:10 14:30:00'', ''pics/a.jpg''],
         Inr ''1 image files updated''),
        ([''exiftool'', ''-P'', ''-EXIF:DateTimeOriginal=2021:05:10 14:30:00'', ''pics/a.jpg'',
          ''pics/a.jpg''], Inr ''1 image files updated'')]"
  by (simp add: saved_again_def saved_eval save_file_def save_samename_def execute_def
      os_remove_def example_tool_def example_run_def path_defs)

lemma load_failed_eval:
  "load_failed =
     (Inr (),
      \<lparr>exiftool_path = [''exiftool''], filepath = Some [''pics'', ''a.jpg''],
       metadata = Map.empty, commands = [], log_enabled = True\<rparr>,
      \<lparr>files = {[''pics'', ''a.jpg'']},
       runs = [([''exiftool'', ''-G'', ''-J'', ''pics/a.jpg''], Inr [])]\<rparr>)"
  by (simp add: load_failed_def load_file_def execute_def silent_tool_def silent_run_def init_def
      example_world_def str_path_def is_root_def ExifTool_tool_version_def)

lemma save_after_load_failed_eval:
  "save_file silent_tool [] False (fst (snd load_failed)) (snd (snd load_failed)) =
     (Inl FileNotFoundError,
      \<lparr>exiftool_path = [''exiftool''], filepath = Some [''pics'', ''a.jpg''],
       metadata = Map.empty, commands = [''-filename=pics/a.jpg-1'', ''pics/a.jpg''],
       log_enabled = True\<rparr>,
      \<lparr>files = {[''pics'', ''a.jpg'']},
       runs = [([''exiftool'', ''-G'', ''-J'', ''pics/a.jpg''], Inr []),
               ([''-filename=pics/a.jpg-1'', ''pics/a.jpg''], Inl FileNotFoundError)]\<rparr>)"
  by (simp add: load_failed_eval save_file_def save_samename_def save_newname_def execute_def
      silent_tool_def silent_run_def example_itername_def path_defs)

lemma saved_as_eval:
  "save_file example_tool ''b.jpg'' False edited (snd (snd loaded)) =
     (Inr True,
      \<lparr>exiftool_path = [''exiftool''], filepath = Some [''pics'', ''a.jpg''],
       metadata = Map.empty,
       commands = [''exiftool'', ''-P'', ''-EXIF:DateTimeOriginal=2021:05:10 14:30:00'',
                   ''-filename=pics/b.jpg'', ''pics/a.jpg''],
       log_enabled = True\<rparr>,
      \<lparr>files = {[''pics'', ''a.jpg'']},
       runs = [([''exiftool'', ''-G'', ''-J'', ''pics/a.jpg''],
                Inr ''ExifTool:ExifToolVersion''),
               ([''exiftool'', ''-P'', ''-EXIF:DateTimeOriginal=2021:05:10 14:30:00'',
                 ''-filename=pics/b.jpg'', ''pics/a.jpg''], Inr ''1 image files updated'')]\<rparr>)"
  by (simp add: edited_eval loaded_eval save_file_def save_newname_def execute_def
      example_tool_def example_run_def example_itername_def path_defs)

text \<open>The amended statement of C1 at the example session: saved in place, and saved as \<open>b.jpg\<close>.\<close>

theorem save_file_result_witness:
  "filepath edited = Some [''pics'', ''a.jpg''] \<and> length (commands edited) \<noteq> 2
   \<and> fst saved = Inr True
   \<and> commands (fst (snd saved)) = commands edited @ [''pics/a.jpg'']
   \<and> runs (snd (snd saved)) =
       runs (snd (snd loaded)) @ [(commands (fst (snd saved)), Inr ''1 image files updated'')]
   \<and> files (snd (snd saved)) = {[''pics'', ''a.jpg'']}
   \<and> fst (save_file example_tool ''b.jpg'' False edited (snd (snd loaded))) = Inr True
   \<and> commands (fst (snd (save_file example_tool ''b.jpg'' False edited (snd (snd loaded)))))
       = commands edited @ [''-filename=pics/b.jpg'', ''pics/a.jpg'']"
proof -
  let ?fp = "[''pics'', ''a.jpg'']"
  let ?w = "snd (snd loaded)"
  let ?as = "save_file example_tool ''b.jpg'' False edited ?w"
  have fp: "filepath edited = Some ?fp" and len: "length (commands edited) \<noteq> 2"
    by (simp_all add: edited_eval)
  have pth: "str_path ?fp = ''pics/a.jpg''" "name ?fp = ''a.jpg''"
    "joinpath (parent ?fp) (name ?fp @ ''_original'') = [''pics'', ''a.jpg_original'']"
    "joinpath (parent ?fp) ''b.jpg'' = [''pics'', ''b.jpg'']"
    "str_path [''pics'', ''b.jpg''] = ''pics/b.jpg''"
    by (simp_all add: path_defs)
  have fw: "files ?w = {?fp}"
    by (simp add: loaded_eval)
  have sv: "save_file example_tool [] True edited ?w = (fst saved, fst (snd saved), snd (snd saved))"
    by (simp add: saved_def)
  have run: "run_process example_tool (commands (fst (snd saved))) (files ?w)
      = (Inr ''1 image files updated'', {?fp, [''pics'', ''a.jpg_original'']})"
    by (auto simp: saved_eval loaded_eval example_tool_def example_run_def)
  have a: "fst saved = Inr True
     \<and> commands (fst (snd saved)) = commands edited @ [''pics/a.jpg'']
     \<and> runs (snd (snd saved)) =
         runs ?w @ [(commands (fst (snd saved)), Inr ''1 image files updated'')]
     \<and> files (snd (snd saved)) = {?fp}"
    using save_file_result [OF fp len sv, where same = True and fs = "files ?w"
        and backup = "[''pics'', ''a.jpg_original'']"
        and t = "Inr ''1 image files updated''"
        and fs' = "{?fp, [''pics'', ''a.jpg_original'']}"] run pth
    by auto
  have sv2: "?as = (fst ?as, fst (snd ?as), snd (snd ?as))"
    by simp
  have run2: "run_process example_tool (commands (fst (snd ?as))) (files ?w)
      = (Inr ''1 image files updated'', {?fp})"
    by (simp add: saved_as_eval) (simp add: loaded_eval example_tool_def example_run_def)
  have it: "itername example_tool (files ?w) [''pics'', ''b.jpg''] = [''pics'', ''b.jpg'']"
    by (simp add: fw example_tool_def example_itername_def)
  have b: "fst ?as = Inr True
     \<and> commands (fst (snd ?as)) = commands edited @ [''-filename=pics/b.jpg'', ''pics/a.jpg'']"
    using save_file_result [OF fp len sv2, where same = False and fs = "files ?w"
        and backup = "[''pics'', ''a.jpg_original'']"
        and t = "Inr ''1 image files updated''" and fs' = "{?fp}"] run2 pth it
    by simp
  from fp len a b show ?thesis by blast
qed

text \<open>
  C1, counterexample. A file is loaded and an edit is queued; the file is saved
  in place, overwriting, with a tool that prints nothing and leaves no backup.
  The tool is run and its output, the empty text, holds neither \<open>unchanged\<close> nor
  \<open>errors\<close>; \<open>save_file\<close> does not return \<open>True\<close>: deleting the backup raises.
\<close>

theorem save_file_clean_text_raises:
  "filepath edited = Some [''pics'', ''a.jpg'']
   \<and> length (commands edited) \<noteq> 2
   \<and> run_process silent_tool (commands edited @ [''pics/a.jpg'']) (files (snd (snd loaded)))
       = (Inr [], files (snd (snd loaded)))
   \<and> \<not> contains [] ''unchanged'' \<and> \<not> contains [] ''errors''
   \<and> fst (save_file silent_tool [] True edited (snd (snd loaded))) = Inl FileNotFoundError
   \<and> runs (snd (snd (save_file silent_tool [] True edited (snd (snd loaded)))))
       = runs (snd (snd loaded)) @ [(commands edited @ [''pics/a.jpg''], Inr [])]"
  by (simp add: edited_eval loaded_eval save_file_def save_samename_def execute_def
      os_remove_def silent_tool_def silent_run_def path_defs)

section \<open>Saving without edits\<close>

text \<open>
  The two guards of \<open>save_file\<close>: with no file loaded, or with a command
  list of length two, the call returns \<open>False\<close> and leaves the session and the
  world as they were (\<open>save_file_guard\<close>). After a load that succeeded the list
  has length two, so a save that follows it at once changes nothing.
\<close>

lemma load_file_commands:
  assumes "load_file x p s w = (r, s', w')" and "p \<in> files w"
    and "fst (run_process x [str_path (exiftool_path s), ''-G'', ''-J'', str_path p] (files w))
           = Inr raw"
  shows "commands s' =
           (if contains raw ''ExifTool:ExifToolVersion''
            then [str_path (exiftool_path s), ''-P''] else [])"
    and "filepath s' = Some p"
  using assms
  by (auto simp: load_file_def execute_def Let_def ExifTool_tool_version_def
      split: prod.splits sum.splits if_splits)

lemma save_file_after_successful_load:
  assumes "load_file x p s w = (r, s', w')" and "p \<in> files w"
    and "fst (run_process x [str_path (exiftool_path s), ''-G'', ''-J'', str_path p] (files w))
           = Inr raw"
    and "contains raw ''ExifTool:ExifToolVersion''"
  shows "save_file x output_filename overwrite s' w' = (Inr False, s', w')"
  using load_file_commands(1) [OF assms(1-3)] assms(4)
  by (intro save_file_guard) simp

text \<open>
  C4. A save with no edit queued is to return \<open>False\<close> and leave the world
  alone. That holds with no file loaded and after a load that succeeded, by the
  lemmas above. A load that fails leaves the file recorded and the command list
  empty; the guard compares the length with two, so the next \<open>save_file\<close>
  goes on: it appends the rename directive and the file path to the empty list
  and starts that as a process, which raises.
\<close>

theorem save_file_after_failed_load:
  "fst load_failed = Inr ()
   \<and> filepath (fst (snd load_failed)) = Some [''pics'', ''a.jpg'']
   \<and> commands (fst (snd load_failed)) = []
   \<and> fst (save_file silent_tool [] False (fst (snd load_failed)) (snd (snd load_failed)))
       = Inl FileNotFoundError
   \<and> runs (snd (snd (save_file silent_tool [] False (fst (snd load_failed))
                        (snd (snd load_failed)))))
       = runs (snd (snd load_failed)) @
         [([''-filename=pics/a.jpg-1'', ''pics/a.jpg''], Inl FileNotFoundError)]"
  by (simp add: save_after_load_failed_eval) (simp add: load_failed_eval)

section \<open>The pending commands\<close>

text \<open>
  C8, counterexample. After \<open>save_file\<close> has run the tool and returned
  \<open>True\<close>, the command list still holds the baseline and the edit token,
  followed by the file path that the call appended; a second \<open>save_file\<close>
  passes the guard and runs the tool with the edit token again.
\<close>

theorem save_file_keeps_commands:
  "fst saved = Inr True
   \<and> commands (fst (snd saved)) =
       [''exiftool'', ''-P'', ''-EXIF:DateTimeOriginal=2021:05:10 14:30:00'', ''pics/a.jpg'']
   \<and> fst saved_again = Inr True
   \<and> last (runs (snd (snd saved_again))) =
       ([''exiftool'', ''-P'', ''-EXIF:DateTimeOriginal=2021:05:10 14:30:00'', ''pics/a.jpg'',
         ''pics/a.jpg''], Inr ''1 image files updated'')"
  by (simp add: saved_eval saved_again_eval)

text \<open>
  C8, amended. A load whose output holds the version marker leaves exactly the
  baseline (the tool path and \<open>-P\<close>); every setter appends one token;
  \<open>save_file\<close> removes nothing: what was pending before the call is still
  pending after it, in the same order, and a call that ran the tool has added
  tokens of its own.
\<close>

theorem commands_lifecycle:
  "(load_file x p s w = (r, s', w') \<and> p \<in> files w \<and>
      fst (run_process x [str_path (exiftool_path s), ''-G'', ''-J'', str_path p] (files w))
        = Inr raw \<and>
      contains raw ''ExifTool:ExifToolVersion'' \<longrightarrow>
      commands s' = [str_path (exiftool_path s), ''-P''])
   \<and> commands (set_exif_modify_date yw d s) = commands s @ [''-EXIF:ModifyDate='' @ strftime yw d]
   \<and> commands (set_exif_original_date yw d s) =
       commands s @ [''-EXIF:DateTimeOriginal='' @ strftime yw d]
   \<and> commands (set_exif_digitized_date yw d s) =
       commands s @ [''-EXIF:CreateDate='' @ strftime yw d]
   \<and> commands (set_mov_create_date yw d s) =
       commands s @ [''-QuickTime:CreateDate='' @ strftime yw d]
   \<and> commands (set_mov_comment c s) = commands s @ [''-QuickTime:Comment='' @ c]
   \<and> (save_file x output_filename overwrite s w = (q, s'', w'') \<longrightarrow>
        (\<exists>extra. commands s'' = commands s @ extra \<and> (runs w'' \<noteq> runs w \<longrightarrow> extra \<noteq> [])))"
proof -
  have a: "load_file x p s w = (r, s', w') \<and> p \<in> files w \<and>
      fst (run_process x [str_path (exiftool_path s), ''-G'', ''-J'', str_path p] (files w))
        = Inr raw \<and>
      contains raw ''ExifTool:ExifToolVersion'' \<longrightarrow>
      commands s' = [str_path (exiftool_path s), ''-P'']"
    using load_file_commands(1) [of x p s w r s' w' raw] by simp
  have b: "commands (set_exif_modify_date yw d s) = commands s @ [''-EXIF:ModifyDate='' @ strftime yw d]"
    "commands (set_exif_original_date yw d s) =
       commands s @ [''-EXIF:DateTimeOriginal='' @ strftime yw d]"
    "commands (set_exif_digitized_date yw d s) =
       commands s @ [''-EXIF:CreateDate='' @ strftime yw d]"
    "commands (set_mov_create_date yw d s) =
       commands s @ [''-QuickTime:CreateDate='' @ strftime yw d]"
    "commands (set_mov_comment c s) = commands s @ [''-QuickTime:Comment='' @ c]"
    by (simp_all add: set_exif_modify_date_def set_exif_original_date_def
        set_exif_digitized_date_def set_mov_create_date_def set_mov_comment_def setmetadates_def
        Exif_modify_date_def Exif_datetime_original_def Exif_date_digitized_def
        QuickTime_create_date_def QuickTime_comment_def)
  have c: "save_file x output_filename overwrite s w = (q, s'', w'') \<longrightarrow>
        (\<exists>extra. commands s'' = commands s @ extra \<and> (runs w'' \<noteq> runs w \<longrightarrow> extra \<noteq> []))"
  proof
    assume sv: "save_file x output_filename overwrite s w = (q, s'', w'')"
    show "\<exists>extra. commands s'' = commands s @ extra \<and> (runs w'' \<noteq> runs w \<longrightarrow> extra \<noteq> [])"
    proof (cases "filepath s = None \<or> length (commands s) = 2")
      case True
      from save_file_guard [OF True] sv have "s'' = s" "w'' = w" by simp_all
      then show ?thesis by simp
    next
      case False
      then obtain fp where fp: "filepath s = Some fp" and len: "length (commands s) \<noteq> 2"
        by auto
      from save_file_effect [OF fp len sv] show ?thesis by blast
    qed
  qed
  from a b c show ?thesis by blast
qed

theorem commands_lifecycle_witness:
  "commands (fst (snd loaded)) = [''exiftool'', ''-P'']
   \<and> commands edited =
       [''exiftool'', ''-P'', ''-EXIF:DateTimeOriginal=2021:05:10 14:30:00'']
   \<and> (\<exists>extra. extra \<noteq> [] \<and> commands (fst (snd saved)) = commands edited @ extra)"
proof -
  let ?s0 = "init [''exiftool''] True"
  have ld: "load_file example_tool [''pics'', ''a.jpg''] ?s0 example_world
      = (fst loaded, fst (snd loaded), snd (snd loaded))"
    by (simp add: loaded_def)
  have pre: "[''pics'', ''a.jpg''] \<in> files example_world"
    "fst (run_process example_tool
        [str_path (exiftool_path ?s0), ''-G'', ''-J'', str_path [''pics'', ''a.jpg'']]
        (files example_world)) = Inr ''ExifTool:ExifToolVersion''"
    "contains ''ExifTool:ExifToolVersion'' ''ExifTool:ExifToolVersion''"
    "str_path (exiftool_path ?s0) = ''exiftool''"
    by (simp_all add: example_world_def example_tool_def example_run_def init_def str_path_def is_root_def)
  have sv: "save_file example_tool [] True edited (snd (snd loaded))
      = (fst saved, fst (snd saved), snd (snd saved))"
    by (simp add: saved_def)
  have ne: "runs (snd (snd saved)) \<noteq> runs (snd (snd loaded))"
    by (simp add: saved_eval loaded_eval)
  note t = strftime_example
  have 1: "commands (fst (snd loaded)) = [''exiftool'', ''-P'']"
    using commands_lifecycle [where x = example_tool and p = "[''pics'', ''a.jpg'']"
        and s = ?s0 and w = example_world and r = "fst loaded" and s' = "fst (snd loaded)"
        and w' = "snd (snd loaded)" and raw = "''ExifTool:ExifToolVersion''"]
      ld pre by simp
  have 2: "commands edited =
       [''exiftool'', ''-P'', ''-EXIF:DateTimeOriginal=2021:05:10 14:30:00'']"
    using commands_lifecycle [where s = "fst (snd loaded)" and yw = 4 and d = example_date] 1 t
    by (simp add: edited_def)
  have 3: "\<exists>extra. extra \<noteq> [] \<and> commands (fst (snd saved)) = commands edited @ extra"
    using commands_lifecycle [where s = edited and w = "snd (snd loaded)" and x = example_tool
        and output_filename = "[]" and overwrite = True and q = "fst saved"
        and s'' = "fst (snd saved)" and w'' = "snd (snd saved)"] sv ne
    by blast
  from 1 2 3 show ?thesis by blast
qed

section \<open>Writing a date and reading it back\<close>

lemma digit_char_all:
  "\<forall>n < 10. is_digit (digit_char n) \<and> digit_val (digit_char n) = int n"
  by (simp add: eval_nat_numeral All_less_Suc digit_char_def is_digit_def digit_val_def)

lemma digit_char_digit:
  assumes "n < 10"
  shows "is_digit (digit_char n)" and "digit_val (digit_char n) = int n"
  using assms digit_char_all by blast+

lemma is_digit_plain:
  assumes "is_digit c"
  shows "\<not> c_isspace c" and "\<not> isspace c" and "c \<noteq> CHR '':''" and "c \<noteq> CHR ''-''"
    and "c \<noteq> CHR ''+''" and "c \<noteq> CHR ''_''"
  using assms by (auto simp: is_digit_def c_isspace_def isspace_def)

lemma str_nat_digits: "str_nat n \<noteq> [] \<and> list_all is_digit (str_nat n)"
proof (induction n rule: str_nat.induct)
  case (1 n)
  show ?case
  proof (cases "n < 10")
    case True
    then show ?thesis by (simp add: str_nat.simps [of n] digit_char_digit)
  next
    case False
    with 1 show ?thesis by (simp add: str_nat.simps [of n] digit_char_digit)
  qed
qed

lemma scan_digits_snoc:
  "is_digit c \<Longrightarrow> scan_digits b acc xs = Some v \<Longrightarrow>
   scan_digits b acc (xs @ [c]) = Some (10 * v + digit_val c)"
  by (induction xs arbitrary: b acc) (auto split: if_splits)

lemma scan_digits_str_nat: "scan_digits True 0 (str_nat n) = Some (int n)"
proof (induction n rule: str_nat.induct)
  case (1 n)
  show ?case
  proof (cases "n < 10")
    case True
    then show ?thesis by (simp add: str_nat.simps [of n] digit_char_digit)
  next
    case False
    with 1 have ih: "scan_digits True 0 (str_nat (n div 10)) = Some (int (n div 10))" by simp
    have d: "is_digit (digit_char (n mod 10))" "digit_val (digit_char (n mod 10)) = int (n mod 10)"
      by (simp_all add: digit_char_digit)
    have "scan_digits True 0 (str_nat (n div 10) @ [digit_char (n mod 10)])
        = Some (10 * int (n div 10) + int (n mod 10))"
      using scan_digits_snoc [OF d(1) ih] d(2) by simp
    also have "10 * int (n div 10) + int (n mod 10) = int n"
      by (simp add: zdiv_int zmod_int)
    finally show ?thesis using False by (simp add: str_nat.simps [of n])
  qed
qed

lemma scan_digits_need:
  "xs \<noteq> [] \<Longrightarrow> is_digit (hd xs) \<Longrightarrow> scan_digits b acc xs = scan_digits False acc xs"
  by (cases xs) simp_all

lemma is_digit_zero: "is_digit CHR ''0''" "digit_val CHR ''0'' = 0"
  by (simp_all add: is_digit_def digit_val_def)

lemma scan_digits_zeros:
  assumes "xs \<noteq> []" and "is_digit (hd xs)"
  shows "scan_digits True 0 (replicate k CHR ''0'' @ xs) = scan_digits True 0 xs"
proof (induction k)
  case 0
  show ?case by simp
next
  case (Suc k)
  have nz: "replicate k CHR ''0'' @ xs \<noteq> []" using assms by simp
  have hd: "is_digit (hd (replicate k CHR ''0'' @ xs))"
    using assms by (cases k) (simp_all add: is_digit_zero)
  have "scan_digits True 0 (replicate (Suc k) CHR ''0'' @ xs)
      = scan_digits False 0 (replicate k CHR ''0'' @ xs)"
    by (simp add: is_digit_zero)
  also have "\<dots> = scan_digits True 0 (replicate k CHR ''0'' @ xs)"
    using scan_digits_need [OF nz hd, of True 0] by simp
  finally show ?case using Suc by simp
qed

lemma str_nat_length: "0 < k \<Longrightarrow> n < 10 ^ k \<Longrightarrow> length (str_nat n) \<le> k"
proof (induction n arbitrary: k rule: str_nat.induct)
  case (1 n)
  show ?case
  proof (cases "n < 10")
    case True
    with 1 show ?thesis by (simp add: str_nat.simps [of n] Suc_leI)
  next
    case False
    obtain j where k: "k = Suc j" using 1 by (cases k) simp_all
    have "j \<noteq> 0" using False 1 k by (cases j) simp_all
    moreover have "n div 10 < 10 ^ j" using 1 k by (simp add: less_mult_imp_div_less mult.commute)
    ultimately have "length (str_nat (n div 10)) \<le> j" using "1.IH" [of j] False by simp
    then show ?thesis using False k by (simp add: str_nat.simps [of n])
  qed
qed

lemma zfill_digits: "zfill w (str_nat n) \<noteq> [] \<and> list_all is_digit (zfill w (str_nat n))"
  using str_nat_digits [of n] by (auto simp: zfill_def is_digit_zero list_all_iff)

lemma zfill_length: "length (zfill w s) = max w (length s)"
  by (simp add: zfill_def)

lemma strip_digits:
  assumes "xs \<noteq> []" and "list_all is_digit xs"
  shows "strip xs = xs"
proof -
  from assms have h: "\<not> c_isspace (hd xs)" and l: "\<not> c_isspace (last xs)"
    by (simp_all add: list_all_iff is_digit_plain)
  from assms h have a: "dropWhile c_isspace xs = xs" by (cases xs) simp_all
  from assms l have "dropWhile c_isspace (rev xs) = rev xs"
    by (cases "rev xs") (simp_all add: hd_rev [symmetric])
  with a show ?thesis by (simp add: strip_def)
qed

lemma unsign_digits:
  assumes "xs \<noteq> []" and "list_all is_digit xs"
  shows "unsign xs = (False, xs)"
  using assms by (cases xs) (auto simp: unsign_def dest: is_digit_plain)

lemma py_int_zfill:
  assumes "n < 10000" and "w \<le> 4300"
  shows "py_int (zfill w (str_nat n)) = Inr (int n)"
proof -
  let ?s = "zfill w (str_nat n)"
  note dg = zfill_digits [of w n]
  have sd: "str_nat n \<noteq> []" "is_digit (hd (str_nat n))"
    using str_nat_digits [of n] by (cases "str_nat n"; simp)+
  have sc: "scan_digits True 0 ?s = Some (int n)"
    unfolding zfill_def using scan_digits_zeros [OF sd] scan_digits_str_nat by simp
  have "length (str_nat n) \<le> 4"
    using str_nat_length [of 4 n] assms(1) by simp
  then have "length ?s \<le> 4300"
    using assms(2) by (simp add: zfill_length)
  with length_filter_le [of is_digit ?s] have "length (filter is_digit ?s) \<le> 4300"
    by (rule le_trans)
  then have lim: "\<not> int_max_str_digits < length (filter is_digit ?s)"
    by (simp add: int_max_str_digits_def)
  show ?thesis
    using dg sc lim by (simp add: py_int_def strip_digits unsign_digits)
qed

lemma split_aux_plain: "sep \<notin> set a \<Longrightarrow> split_aux sep cur a = [cur @ a]"
  by (induction a arbitrary: cur) auto

lemma split_aux_sep:
  "sep \<notin> set a \<Longrightarrow> split_aux sep cur (a @ sep # rest) = (cur @ a) # split_aux sep [] rest"
  by (induction a arbitrary: cur) auto

lemma split_three:
  assumes "sep \<notin> set a" and "sep \<notin> set b" and "sep \<notin> set c"
  shows "split (a @ sep # b @ sep # c) sep = [a, b, c]"
  using assms by (simp add: split_def split_aux_sep split_aux_plain)

lemma split_ws_aux_plain:
  "\<forall>c \<in> set a. \<not> isspace c \<Longrightarrow> cur @ a \<noteq> [] \<Longrightarrow> split_ws_aux cur a = [cur @ a]"
  by (induction a arbitrary: cur) simp_all

lemma split_ws_aux_space:
  "\<forall>c \<in> set a. \<not> isspace c \<Longrightarrow> cur @ a \<noteq> [] \<Longrightarrow> isspace s \<Longrightarrow>
   split_ws_aux cur (a @ s # rest) = (cur @ a) # split_ws_aux [] rest"
  by (induction a arbitrary: cur) auto

lemma split_ws_two:
  assumes "\<forall>c \<in> set a. \<not> isspace c" and "a \<noteq> []" and "\<forall>c \<in> set b. \<not> isspace c" and "b \<noteq> []"
  shows "split_ws (a @ CHR '' '' # b) = [a, b]"
proof -
  have sp: "isspace CHR '' ''" by (simp add: isspace_def)
  show ?thesis
    using assms split_ws_aux_space [of a "[]" "CHR '' ''" b, OF assms(1) _ sp]
      split_ws_aux_plain [of b "[]"]
    by (simp add: split_ws_def)
qed

lemma days_in_month_le: "days_in_month y m \<le> 31"
  by (simp add: days_in_month_def)

lemma metadates_strftime:
  assumes v: "valid_fields (year d) (month d) (day d) (hour d) (minute d) (second d)"
    and yw: "yw \<le> 4300"
  shows "metadates (split_ws (strftime yw d)) =
           Inr \<lparr>year = year d, month = month d, day = day d, hour = hour d,
                minute = minute d, second = second d, microsecond = 0, tzinfo = None\<rparr>"
proof -
  let ?Y = "zfill yw (str_nat (nat (year d)))"
  let ?M = "zfill 2 (str_nat (nat (month d)))"
  let ?D = "zfill 2 (str_nat (nat (day d)))"
  let ?H = "zfill 2 (str_nat (nat (hour d)))"
  let ?I = "zfill 2 (str_nat (nat (minute d)))"
  let ?S = "zfill 2 (str_nat (nat (second d)))"
  let ?date = "?Y @ CHR '':'' # ?M @ CHR '':'' # ?D"
  let ?time = "?H @ CHR '':'' # ?I @ CHR '':'' # ?S"
  from v days_in_month_le [of "year d" "month d"]
  have r: "1 \<le> year d" "year d \<le> 9999" "1 \<le> month d" "month d \<le> 12" "1 \<le> day d"
    "day d \<le> 31" "0 \<le> hour d" "hour d \<le> 23" "0 \<le> minute d" "minute d \<le> 59"
    "0 \<le> second d" "second d \<le> 59"
    by (simp_all add: valid_fields_def)
  have st: "strftime yw d = ?date @ CHR '' '' # ?time"
    by (simp add: strftime_def)
  have colon: "\<And>w n. CHR '':'' \<notin> set (zfill w (str_nat n))"
    using zfill_digits by (auto simp: list_all_iff dest: is_digit_plain)
  have space: "\<And>w n c. c \<in> set (zfill w (str_nat n)) \<Longrightarrow> \<not> isspace c"
    using zfill_digits by (auto simp: list_all_iff dest: is_digit_plain)
  have csp: "\<not> isspace CHR '':''"
    by (simp add: isspace_def)
  have ne: "\<And>w n. zfill w (str_nat n) \<noteq> []"
    using zfill_digits by simp
  have toks: "split_ws (strftime yw d) = [?date, ?time]"
    unfolding st by (rule split_ws_two) (auto simp: csp ne dest: space)
  have sd: "split ?date CHR '':'' = [?Y, ?M, ?D]"
    by (rule split_three) (rule colon)+
  have stt: "split ?time CHR '':'' = [?H, ?I, ?S]"
    by (rule split_three) (rule colon)+
  have iy: "py_int ?Y = Inr (year d)"
    using py_int_zfill [of "nat (year d)" yw] r yw by simp
  have two: "\<And>x. 0 \<le> x \<Longrightarrow> x \<le> 59 \<Longrightarrow> py_int (zfill 2 (str_nat (nat x))) = Inr x"
    using py_int_zfill [of _ 2] by simp
  have im: "py_int ?M = Inr (month d)" and idd: "py_int ?D = Inr (day d)"
    and ih: "py_int ?H = Inr (hour d)" and ii: "py_int ?I = Inr (minute d)"
    and isec: "py_int ?S = Inr (second d)"
    using r by (simp_all add: two)
  have ymd: "int_all [?Y, ?M, ?D] = Inr [year d, month d, day d]"
    by (simp add: iy im idd raise_or_def)
  have hms: "int_all [?H, ?I, ?S] = Inr [hour d, minute d, second d]"
    by (simp add: ih ii isec raise_or_def)
  have ci: "c_int (year d)" "c_int (month d)" "c_int (day d)" "c_int (hour d)"
    "c_int (minute d)" "c_int (second d)"
    using r by (simp_all add: c_int_def)
  have "metadates_try [?date, ?time] =
      datetime_new (year d) (month d) (day d) (hour d) (minute d) (second d) None"
    using metadates_try_fields [of ?date "year d" "month d" "day d" "[]" ?time
        "hour d" "minute d" "second d" "[]" "[]"] sd stt ymd hms
    by simp
  then show ?thesis
    using v ci by (simp add: toks metadates_def datetime_new_def)
qed

lemma strftime_length:
  assumes v: "valid_fields (year d) (month d) (day d) (hour d) (minute d) (second d)"
  shows "length (strftime 4 d) = 19"
proof -
  from v days_in_month_le [of "year d" "month d"]
  have r: "1 \<le> year d" "year d \<le> 9999" "1 \<le> month d" "month d \<le> 12" "1 \<le> day d"
    "day d \<le> 31" "0 \<le> hour d" "hour d \<le> 23" "0 \<le> minute d" "minute d \<le> 59"
    "0 \<le> second d" "second d \<le> 59"
    by (simp_all add: valid_fields_def)
  have two: "length (zfill 2 (str_nat (nat x))) = 2" if "0 \<le> x" and "x \<le> 59" for x
  proof -
    from that have "nat x < 10 ^ 2" by simp
    then have "length (str_nat (nat x)) \<le> 2" by (intro str_nat_length) simp_all
    then show ?thesis by (simp add: zfill_length max_def)
  qed
  have four: "length (zfill 4 (str_nat (nat (year d)))) = 4"
  proof -
    from r have "nat (year d) < 10 ^ 4" by simp
    then have "length (str_nat (nat (year d))) \<le> 4" by (intro str_nat_length) simp_all
    then show ?thesis by (simp add: zfill_length max_def)
  qed
  show ?thesis
    using r by (simp add: strftime_def two four)
qed

text \<open>
  C2. For a valid date/time value without time zone and with zero microseconds,
  the token written by \<open>_setmetadates\<close> is \<open>-\<close>, the tag, \<open>=\<close> and the rendered
  value; the value that follows the prefix, split at white space and decoded by
  \<open>_metadates\<close>, is the original value, whatever width the platform pads the
  year to. With four-digit years the rendered value has the nineteen characters
  of \<open>YYYY:MM:DD HH:MM:SS\<close>.
\<close>

theorem setmetadates_roundtrip:
  assumes "valid_datetime d" and "microsecond d = 0" and "tzinfo d = None" and "yw \<le> 4300"
  shows "setmetadates yw kwrd d = ''-'' @ kwrd @ ''='' @ strftime yw d
   \<and> metadates (split_ws (drop (length kwrd + 2) (setmetadates yw kwrd d))) = Inr d
   \<and> length (strftime 4 d) = 19"
proof -
  from assms(1) have v: "valid_fields (year d) (month d) (day d) (hour d) (minute d) (second d)"
    by (simp add: valid_datetime_def)
  have tok: "setmetadates yw kwrd d = ''-'' @ kwrd @ ''='' @ strftime yw d"
    by (simp add: setmetadates_def)
  have val: "drop (length kwrd + 2) (setmetadates yw kwrd d) = strftime yw d"
    by (simp add: setmetadates_def)
  have d: "\<lparr>year = year d, month = month d, day = day d, hour = hour d,
            minute = minute d, second = second d, microsecond = 0, tzinfo = None\<rparr> = d"
    using assms(2,3) by (cases d) simp
  from metadates_strftime [OF v assms(4)] d
  have "metadates (split_ws (strftime yw d)) = Inr d" by simp
  with tok val strftime_length [OF v] show ?thesis by simp
qed

theorem setmetadates_roundtrip_witness:
  "valid_datetime example_date \<and> microsecond example_date = 0 \<and> tzinfo example_date = None
   \<and> setmetadates 4 ''EXIF:DateTimeOriginal'' example_date
       = ''-EXIF:DateTimeOriginal=2021:05:10 14:30:00''
   \<and> metadates (split_ws ''2021:05:10 14:30:00'') = Inr example_date"
proof -
  have h: "valid_datetime example_date" "microsecond example_date = 0"
    "tzinfo example_date = None" "(4::nat) \<le> 4300"
    by (simp_all add: valid_datetime_def valid_fields_def days_in_month_def example_date_def)
  from setmetadates_roundtrip [OF h, of "''EXIF:DateTimeOriginal''"] h show ?thesis
    by (simp add: strftime_example setmetadates_def)
qed

end
